theory Spec2Isabelle
  imports Complex_Main "HOL-Library.Multiset" "HOL-Library.Log_Nat"
begin

section \<open>Numbers\<close>

text \<open>
  The panel computes with JavaScript numbers, which are IEEE double-precision values. A
  finite number is modelled by the real it denotes (only the reals that \<open>toDouble\<close>
  below leaves unchanged denote numbers of the program), an integer-valued property by
  an \<open>int\<close>. The only non-finite number the source itself writes is \<open>Infinity\<close>, the
  default of the upper size bounds and of a widget's maximum width and height, so upper
  bounds have a type of their own.
\<close>

datatype limit = Finite real | Infinity

text \<open>\<open>Math.min(x, l)\<close> for a finite \<open>x\<close> and an upper bound \<open>l\<close>.\<close>

fun Math_min :: "real \<Rightarrow> limit \<Rightarrow> real" where
  "Math_min x (Finite l) = min x l"
| "Math_min x Infinity = x"

text \<open>\<open>Math.max(x, l)\<close> for a finite \<open>x\<close> and an upper bound \<open>l\<close>.\<close>

fun Math_max_limit :: "real \<Rightarrow> limit \<Rightarrow> limit" where
  "Math_max_limit x (Finite l) = Finite (max x l)"
| "Math_max_limit x Infinity = Infinity"

text \<open>
  The result of an arithmetic operation on doubles is the exact result rounded to the
  nearest double, a tie going to the even significand. \<open>binade x\<close> is the exponent \<open>e\<close>
  with \<open>2 ^ e \<le> \<bar>x\<bar> < 2 ^ (e + 1)\<close>; a double in that binade is a multiple of
  \<open>2 ^ (e - 52)\<close>, and below \<open>2 ^ (- 1022)\<close> the spacing stays at \<open>2 ^ (- 1074)\<close>.
  Overflow to \<open>Infinity\<close> is not modelled.
\<close>

definition roundHalfEven :: "real \<Rightarrow> int" where
  "roundHalfEven t =
     (let f = \<lfloor>t\<rfloor>; d = t - of_int f
      in if d < 1 / 2 then f else if 1 / 2 < d then f + 1 else if even f then f else f + 1)"

definition binade :: "real \<Rightarrow> int" where
  "binade x =
     (if 1 \<le> \<bar>x\<bar> then bitlen \<lfloor>\<bar>x\<bar>\<rfloor> - 1 else - bitlen (\<lceil>1 / \<bar>x\<bar>\<rceil> - 1))"

definition toDouble :: "real \<Rightarrow> real" where
  "toDouble x =
     (if x = 0 then 0
      else (let ulp = 2 powi (max (binade x) (- 1022) - 52)
            in of_int (roundHalfEven (x / ulp)) * ulp))"

text \<open>The operators \<open>-\<close>, \<open>*\<close> and \<open>/\<close> on numbers.\<close>

definition js_sub :: "real \<Rightarrow> real \<Rightarrow> real" where
  "js_sub a b = toDouble (a - b)"

definition js_mul :: "real \<Rightarrow> real \<Rightarrow> real" where
  "js_mul a b = toDouble (a * b)"

definition js_div :: "real \<Rightarrow> real \<Rightarrow> real" where
  "js_div a b = toDouble (a / b)"

text \<open>
  \<open>value | 0\<close> is the ToInt32 conversion: the number is truncated toward zero and then
  reduced modulo \<open>2 ^ 32\<close> into the signed 32-bit range.
\<close>

definition truncToZero :: "real \<Rightarrow> int" where
  "truncToZero v = (if 0 \<le> v then \<lfloor>v\<rfloor> else \<lceil>v\<rceil>)"

definition ToInt32 :: "real \<Rightarrow> int" where
  "ToInt32 v =
     (let int32bit = truncToZero v mod 2 ^ 32
      in if 2 ^ 31 \<le> int32bit then int32bit - 2 ^ 32 else int32bit)"

section \<open>Data model\<close>

record box =
  paddingTop :: real
  paddingLeft :: real
  horizontalSum :: real
  verticalSum :: real

record limits =
  minWidth :: real
  minHeight :: real
  maxWidth :: limit
  maxHeight :: limit

record rect =
  rx :: real
  ry :: real
  rwidth :: real
  rheight :: real

text \<open>
  A child widget: its identity, the four attached placement properties and its own size
  limits.
\<close>

record widget =
  wid :: nat
  row :: int
  column :: int
  rowSpan :: int
  columnSpan :: int
  sizeLimits :: limits

text \<open>
  The dashboard panel: its eight properties, its box sizing, its children in container
  order, and what a layout pass writes: the offset geometry of each widget (by
  identity) and the height of the sizer element.
\<close>

record panel =
  aspectRatio :: real
  columnCount :: int
  minRowSize :: real
  minColumnSize :: real
  maxRowSize :: limit
  maxColumnSize :: limit
  rowSpacing :: int
  columnSpacing :: int
  boxSizing :: box
  children :: "widget list"
  offsetGeometry :: "nat \<rightharpoonup> rect"
  sizerHeight :: "real option"

record ILayoutData =
  singleCol :: bool
  colSize :: real
  rowSize :: real

section \<open>Property descriptors\<close>

text \<open>The \<open>coerce\<close> callback of each property descriptor.\<close>

definition aspectRatio_coerce :: "real \<Rightarrow> real" where
  "aspectRatio_coerce v = max 0 v"

definition columnCount_coerce :: "real \<Rightarrow> int" where
  "columnCount_coerce v = max 1 (ToInt32 v)"

definition minRowSize_coerce :: "real \<Rightarrow> real" where
  "minRowSize_coerce v = max 0 v"

definition minColumnSize_coerce :: "real \<Rightarrow> real" where
  "minColumnSize_coerce v = max 0 v"

definition maxRowSize_coerce :: "limit \<Rightarrow> limit" where
  "maxRowSize_coerce v = Math_max_limit 0 v"

definition maxColumnSize_coerce :: "limit \<Rightarrow> limit" where
  "maxColumnSize_coerce v = Math_max_limit 0 v"

definition rowSpacing_coerce :: "real \<Rightarrow> int" where
  "rowSpacing_coerce v = max 0 (ToInt32 v)"

definition columnSpacing_coerce :: "real \<Rightarrow> int" where
  "columnSpacing_coerce v = max 0 (ToInt32 v)"

definition row_coerce :: "real \<Rightarrow> int" where
  "row_coerce v = max 0 (ToInt32 v)"

definition column_coerce :: "real \<Rightarrow> int" where
  "column_coerce v = max 0 (ToInt32 v)"

definition rowSpan_coerce :: "real \<Rightarrow> int" where
  "rowSpan_coerce v = max 1 (ToInt32 v)"

definition columnSpan_coerce :: "real \<Rightarrow> int" where
  "columnSpan_coerce v = max 1 (ToInt32 v)"

text \<open>
  Modelled from the spec: the property store's \<open>set\<close> and \<open>get\<close> (the \<open>Property\<close> class
  of the phosphor-properties package, which the panel imports and whose code is not part
  of the sources). A \<open>set\<close> applies the descriptor's coercion and stores the coerced
  value; a \<open>get\<close> returns the stored value, which is the record field. The change
  callbacks only schedule a later layout pass and are not modelled.
\<close>

definition set_aspectRatio :: "real \<Rightarrow> panel \<Rightarrow> panel" where
  "set_aspectRatio v p = p\<lparr>aspectRatio := aspectRatio_coerce v\<rparr>"

definition set_columnCount :: "real \<Rightarrow> panel \<Rightarrow> panel" where
  "set_columnCount v p = p\<lparr>columnCount := columnCount_coerce v\<rparr>"

definition set_minRowSize :: "real \<Rightarrow> panel \<Rightarrow> panel" where
  "set_minRowSize v p = p\<lparr>minRowSize := minRowSize_coerce v\<rparr>"

definition set_minColumnSize :: "real \<Rightarrow> panel \<Rightarrow> panel" where
  "set_minColumnSize v p = p\<lparr>minColumnSize := minColumnSize_coerce v\<rparr>"

definition set_maxRowSize :: "limit \<Rightarrow> panel \<Rightarrow> panel" where
  "set_maxRowSize v p = p\<lparr>maxRowSize := maxRowSize_coerce v\<rparr>"

definition set_maxColumnSize :: "limit \<Rightarrow> panel \<Rightarrow> panel" where
  "set_maxColumnSize v p = p\<lparr>maxColumnSize := maxColumnSize_coerce v\<rparr>"

definition set_rowSpacing :: "real \<Rightarrow> panel \<Rightarrow> panel" where
  "set_rowSpacing v p = p\<lparr>rowSpacing := rowSpacing_coerce v\<rparr>"

definition set_columnSpacing :: "real \<Rightarrow> panel \<Rightarrow> panel" where
  "set_columnSpacing v p = p\<lparr>columnSpacing := columnSpacing_coerce v\<rparr>"

definition setRow :: "widget \<Rightarrow> real \<Rightarrow> widget" where
  "setRow w v = w\<lparr>row := row_coerce v\<rparr>"

definition setColumn :: "widget \<Rightarrow> real \<Rightarrow> widget" where
  "setColumn w v = w\<lparr>column := column_coerce v\<rparr>"

definition setRowSpan :: "widget \<Rightarrow> real \<Rightarrow> widget" where
  "setRowSpan w v = w\<lparr>rowSpan := rowSpan_coerce v\<rparr>"

definition setColumnSpan :: "widget \<Rightarrow> real \<Rightarrow> widget" where
  "setColumnSpan w v = w\<lparr>columnSpan := columnSpan_coerce v\<rparr>"

definition getRow :: "widget \<Rightarrow> int" where
  "getRow w = row w"

definition getColumn :: "widget \<Rightarrow> int" where
  "getColumn w = column w"

definition getRowSpan :: "widget \<Rightarrow> int" where
  "getRowSpan w = rowSpan w"

definition getColumnSpan :: "widget \<Rightarrow> int" where
  "getColumnSpan w = columnSpan w"

text \<open>The defaults of the descriptors (\<open>value:\<close>), on a panel with no children.\<close>

definition noLimits :: limits where
  "noLimits = \<lparr>minWidth = 0, minHeight = 0, maxWidth = Infinity, maxHeight = Infinity\<rparr>"

definition noBox :: box where
  "noBox = \<lparr>paddingTop = 0, paddingLeft = 0, horizontalSum = 0, verticalSum = 0\<rparr>"

definition defaultWidget :: "nat \<Rightarrow> widget" where
  "defaultWidget i =
     \<lparr>wid = i, row = 0, column = 0, rowSpan = 1, columnSpan = 1, sizeLimits = noLimits\<rparr>"

definition defaultPanel :: panel where
  "defaultPanel =
     \<lparr>aspectRatio = 1, columnCount = 12, minRowSize = 50, minColumnSize = 50,
      maxRowSize = Infinity, maxColumnSize = Infinity, rowSpacing = 8, columnSpacing = 8,
      boxSizing = noBox, children = [], offsetGeometry = Map.empty, sizerHeight = None\<rparr>"

section \<open>Layout data\<close>

text \<open>
  The layout data decides the layout mode by comparing a computed size with a stored
  one, so its arithmetic, and the subtraction that gives the inner width of a pass, is
  the arithmetic of doubles.
\<close>

definition layoutData :: "panel \<Rightarrow> real \<Rightarrow> ILayoutData" where
  "layoutData p innerWidth =
     (let colCount = columnCount p;
          fixedColSpace = js_mul (of_int (columnSpacing p)) (js_sub (of_int colCount) 1);
          idealColSize = js_div (js_sub innerWidth fixedColSpace) (of_int colCount);
          minColSize = minColumnSize p;
          maxColSize = maxColumnSize p
      in if idealColSize < minColSize then
           \<lparr>singleCol = True,
            colSize = max minColSize (Math_min innerWidth maxColSize),
            rowSize = minRowSize p\<rparr>
         else
           (let colSize = max minColSize (Math_min idealColSize maxColSize);
                idealRowSize = js_mul colSize (aspectRatio p)
            in \<lparr>singleCol = False,
                colSize = colSize,
                rowSize = max (minRowSize p) (Math_min idealRowSize (maxRowSize p))\<rparr>))"

text \<open>
  The clamp of the specification, in its own words: a value is held between a lower and
  an upper bound, and the lower bound wins when the two conflict.
\<close>

fun spec_clamp :: "real \<Rightarrow> real \<Rightarrow> limit \<Rightarrow> real" where
  "spec_clamp v lo Infinity = (if v < lo then lo else v)"
| "spec_clamp v lo (Finite hi) =
     (if hi < lo then lo else if v < lo then lo else if hi < v then hi else v)"

section \<open>Laying out the children\<close>

definition widgetCmp :: "widget \<Rightarrow> widget \<Rightarrow> int" where
  "widgetCmp a b =
     (let r1 = getRow a; r2 = getRow b
      in if r1 \<noteq> r2 then r1 - r2
         else (let c1 = getColumn a; c2 = getColumn b in c1 - c2))"

text \<open>
  \<open>children.sort(widgetCmp)\<close>: the array's built-in sort under a comparison function,
  on the copy of the child list that the \<open>children\<close> accessor returns. It is modelled
  as an insertion sort in which \<open>a\<close> stays in front of \<open>b\<close> when \<open>cmp a b \<le> 0\<close>.
\<close>

fun sortInsert :: "('a \<Rightarrow> 'a \<Rightarrow> int) \<Rightarrow> 'a \<Rightarrow> 'a list \<Rightarrow> 'a list" where
  "sortInsert cmp a [] = [a]"
| "sortInsert cmp a (b # bs) =
     (if cmp a b \<le> 0 then a # b # bs else b # sortInsert cmp a bs)"

fun Array_sort :: "('a \<Rightarrow> 'a \<Rightarrow> int) \<Rightarrow> 'a list \<Rightarrow> 'a list" where
  "Array_sort cmp [] = []"
| "Array_sort cmp (a # as) = sortInsert cmp a (Array_sort cmp as)"

text \<open>
  The loop of single-column mode. It returns the \<open>setOffsetGeometry\<close> calls it makes,
  in order, and the final value of the cursor \<open>y\<close>. The geometry of both loops is
  computed exactly, without the rounding of each intermediate result.
\<close>

fun singleColLoop ::
  "panel \<Rightarrow> ILayoutData \<Rightarrow> real \<Rightarrow> widget list \<Rightarrow> (widget \<times> rect) list \<times> real" where
  "singleColLoop p d y [] = ([], y)"
| "singleColLoop p d y (widget # rest) =
     (let left = paddingLeft (boxSizing p);
          rowSpacing = rowSpacing p;
          span = getRowSpan widget;
          size = of_int span * rowSize d + of_int ((span - 1) * rowSpacing);
          limits = sizeLimits widget;
          w = max (minWidth limits) (Math_min (colSize d) (maxWidth limits));
          h = max (minHeight limits) (Math_min size (maxHeight limits));
          (calls, y') = singleColLoop p d (y + size + of_int rowSpacing) rest
      in ((widget, \<lparr>rx = left, ry = y, rwidth = w, rheight = h\<rparr>) # calls, y'))"

text \<open>
  What the body of the grid-mode loop computes for one widget before the widget's own
  limits are applied: the adjusted column and column span, the offsets \<open>x\<close> and \<open>y\<close>
  inside the padding, and the width \<open>w\<close> and height \<open>h\<close>.
\<close>

record cell =
  adjCol :: int
  adjColSpan :: int
  cell_x :: real
  cell_y :: real
  cell_w :: real
  cell_h :: real

definition gridCell :: "panel \<Rightarrow> ILayoutData \<Rightarrow> widget \<Rightarrow> cell" where
  "gridCell p d widget =
     (let maxCol = columnCount p - 1;
          rowSpacing = rowSpacing p;
          colSpacing = columnSpacing p;
          row = getRow widget;
          rowSpan = getRowSpan widget;
          y = of_int row * (rowSize d + of_int rowSpacing);
          h = of_int rowSpan * rowSize d + of_int ((rowSpan - 1) * rowSpacing);
          col = getColumn widget;
          colSpan = getColumnSpan widget;
          adjCol = min col maxCol;
          adjColSpan = min colSpan (maxCol - adjCol + 1);
          x = of_int adjCol * (colSize d + of_int colSpacing);
          w = of_int adjColSpan * colSize d + of_int ((colSpan - 1) * colSpacing)
      in \<lparr>adjCol = adjCol, adjColSpan = adjColSpan,
          cell_x = x, cell_y = y, cell_w = w, cell_h = h\<rparr>)"

text \<open>
  The loop of grid mode. It returns the \<open>setOffsetGeometry\<close> calls it makes, in order,
  and the final value of \<open>maxRow\<close>.
\<close>

fun gridLoop ::
  "panel \<Rightarrow> ILayoutData \<Rightarrow> int \<Rightarrow> widget list \<Rightarrow> (widget \<times> rect) list \<times> int" where
  "gridLoop p d maxRow [] = ([], maxRow)"
| "gridLoop p d maxRow (widget # rest) =
     (let left = paddingLeft (boxSizing p);
          top = paddingTop (boxSizing p);
          c = gridCell p d widget;
          maxRow' = max maxRow (getRow widget + getRowSpan widget - 1);
          limits = sizeLimits widget;
          w = max (minWidth limits) (Math_min (cell_w c) (maxWidth limits));
          h = max (minHeight limits) (Math_min (cell_h c) (maxHeight limits));
          (calls, m) = gridLoop p d maxRow' rest
      in ((widget, \<lparr>rx = left + cell_x c, ry = top + cell_y c, rwidth = w, rheight = h\<rparr>)
            # calls, m))"

text \<open>
  The effects of one layout pass: the \<open>setOffsetGeometry\<close> calls in the order they are
  made, and the height written to the sizer (\<open>None\<close> when the pass returns before
  writing one). The offset height is not read.
\<close>

definition layoutEffects ::
  "panel \<Rightarrow> real \<Rightarrow> real \<Rightarrow> (widget \<times> rect) list \<times> real option" where
  "layoutEffects p offsetWidth offsetHeight =
     (if length (children p) = 0 then ([], None)
      else
        (let box = boxSizing p;
             top = paddingTop box;
             width = js_sub offsetWidth (horizontalSum box);
             d = layoutData p width
         in if singleCol d then
              (let (calls, y) = singleColLoop p d top (Array_sort widgetCmp (children p))
               in (calls, Some y))
            else
              (let (calls, maxRow) = gridLoop p d 0 (children p);
                   th = of_int (maxRow + 1) * rowSize d + of_int (maxRow * rowSpacing p)
               in (calls, Some (th + verticalSum box)))))"

definition setOffsetGeometry :: "widget \<Rightarrow> rect \<Rightarrow> (nat \<rightharpoonup> rect) \<Rightarrow> (nat \<rightharpoonup> rect)" where
  "setOffsetGeometry widget r g = g(wid widget \<mapsto> r)"

definition layoutChildren :: "panel \<Rightarrow> real \<Rightarrow> real \<Rightarrow> panel" where
  "layoutChildren p offsetWidth offsetHeight =
     (let (calls, extent) = layoutEffects p offsetWidth offsetHeight
      in p\<lparr>offsetGeometry :=
             fold (\<lambda>(widget, r). setOffsetGeometry widget r) calls (offsetGeometry p),
           sizerHeight := (case extent of None \<Rightarrow> sizerHeight p | Some h \<Rightarrow> Some h)\<rparr>)"

text \<open>The inner width and the layout data a pass over \<open>p\<close> works with.\<close>

definition passData :: "panel \<Rightarrow> real \<Rightarrow> ILayoutData" where
  "passData p offsetWidth = layoutData p (js_sub offsetWidth (horizontalSum (boxSizing p)))"

section \<open>Example panels\<close>

text \<open>A widget at column 10 spanning 5 columns, alone on a default panel.\<close>

definition spanWidget :: widget where
  "spanWidget = setColumnSpan (setColumn (defaultWidget 0) 10) 5"

definition spanPanel :: panel where
  "spanPanel = defaultPanel\<lparr>children := [spanWidget]\<rparr>"

text \<open>A default widget whose maximum width is 40, alone on a default panel.\<close>

definition narrowWidget :: widget where
  "narrowWidget = (defaultWidget 0)\<lparr>sizeLimits := noLimits\<lparr>maxWidth := Finite 40\<rparr>\<rparr>"

definition narrowPanel :: panel where
  "narrowPanel = defaultPanel\<lparr>children := [narrowWidget]\<rparr>"

text \<open>A widget at row 2 spanning 3 rows, alone on a default panel.\<close>

definition tallWidget :: widget where
  "tallWidget = setRowSpan (setRow (defaultWidget 0) 2) 3"

definition tallPanel :: panel where
  "tallPanel = defaultPanel\<lparr>children := [tallWidget]\<rparr>"

text \<open>Three widgets at (row, column) = (1, 0), (0, 5), (0, 1), in this container order.\<close>

definition stackPanel :: panel where
  "stackPanel = defaultPanel\<lparr>children :=
     [setColumn (setRow (defaultWidget 0) 1) 0,
      setColumn (setRow (defaultWidget 1) 0) 5,
      setColumn (setRow (defaultWidget 2) 0) 1]\<rparr>"

text \<open>
  The same three widgets declared at (9, 3), (4, 11), (4, 2): other rows and columns in
  the same relative order.
\<close>

definition shiftedPanel :: panel where
  "shiftedPanel = defaultPanel\<lparr>children :=
     [(defaultWidget 0)\<lparr>row := 9, column := 3\<rparr>,
      (defaultWidget 1)\<lparr>row := 4, column := 11\<rparr>,
      (defaultWidget 2)\<lparr>row := 4, column := 2\<rparr>]\<rparr>"

text \<open>One default widget on a default panel.\<close>

definition onePanel :: panel where
  "onePanel = defaultPanel\<lparr>children := [defaultWidget 0]\<rparr>"

text \<open>
  Two default widgets, at rows 0 and 1; and other limits for the first of them: a minimum
  height of 200.
\<close>

definition twoPanel :: panel where
  "twoPanel = defaultPanel\<lparr>children := [defaultWidget 0, setRow (defaultWidget 1) 1]\<rparr>"

definition tallLimits :: "widget \<Rightarrow> limits" where
  "tallLimits w = (if wid w = 0 then noLimits\<lparr>minHeight := 200\<rparr> else sizeLimits w)"

text \<open>
  Three columns without spacing whose minimum size is the double nearest to 100 / 3: at
  inner width 100 the ideal column size is that same double.
\<close>

definition thirdsPanel :: panel where
  "thirdsPanel =
     defaultPanel\<lparr>columnCount := 3, columnSpacing := 0, minColumnSize := toDouble (100 / 3)\<rparr>"

section \<open>Notions of the specification\<close>

text \<open>
  The height of an item's slot in single-column mode and the ascending (row, then column)
  order, in the words of the specification.
\<close>

definition slotHeight :: "panel \<Rightarrow> ILayoutData \<Rightarrow> widget \<Rightarrow> real" where
  "slotHeight p d w = of_int (rowSpan w) * rowSize d + (of_int (rowSpan w) - 1) * of_int (rowSpacing p)"

definition rowColumnLe :: "widget \<Rightarrow> widget \<Rightarrow> bool" where
  "rowColumnLe a b \<longleftrightarrow> row a < row b \<or> (row a = row b \<and> column a \<le> column b)"

text \<open>The same widget with other size limits.\<close>

definition relimit :: "(widget \<Rightarrow> limits) \<Rightarrow> widget \<Rightarrow> widget" where
  "relimit f w = w\<lparr>sizeLimits := f w\<rparr>"

section \<open>Results\<close>

subsection \<open>Rounding\<close>

lemma roundHalfEven_of_int: "roundHalfEven (of_int m) = m"
  by (simp add: roundHalfEven_def)

lemma roundHalfEven_error: "\<bar>of_int (roundHalfEven t) - t\<bar> \<le> 1 / 2"
proof -
  have "of_int \<lfloor>t\<rfloor> \<le> t" "t < of_int \<lfloor>t\<rfloor> + 1"
    by linarith+
  then show ?thesis
    by (auto simp: roundHalfEven_def Let_def)
qed

lemma binade_bounds:
  assumes "x \<noteq> 0"
  shows "2 powi (binade x) \<le> \<bar>x\<bar> \<and> \<bar>x\<bar> < 2 powi (binade x + 1)"
proof (cases "1 \<le> \<bar>x\<bar>")
  case True
  define m where "m = \<lfloor>\<bar>x\<bar>\<rfloor>"
  have m: "0 < m" "of_int m \<le> \<bar>x\<bar>" "\<bar>x\<bar> < of_int m + 1"
    using True by (simp_all add: m_def)
  have b: "1 \<le> bitlen m"
    using m(1) by (simp add: bitlen_ge_iff_power)
  from bitlen_bounds [OF m(1)]
  have lo: "(2::int) ^ nat (bitlen m - 1) \<le> m" and hi: "m + 1 \<le> 2 ^ nat (bitlen m)"
    by simp_all
  have e: "binade x = bitlen m - 1"
    using True by (simp add: binade_def m_def)
  have "(2::real) powi (bitlen m - 1) = of_int (2 ^ nat (bitlen m - 1))"
    using b by (simp add: power_int_def)
  also have "\<dots> \<le> of_int m"
    using lo by (simp only: of_int_le_iff)
  finally have l: "(2::real) powi (bitlen m - 1) \<le> \<bar>x\<bar>"
    using m(2) by simp
  have "of_int m + 1 \<le> (of_int (2 ^ nat (bitlen m)) :: real)"
    using hi by (metis of_int_1 of_int_add of_int_le_iff)
  also have "\<dots> = 2 powi (bitlen m)"
    using b by (simp add: power_int_def)
  finally have "\<bar>x\<bar> < 2 powi (bitlen m)"
    using m(3) by simp
  with l show ?thesis
    by (simp add: e)
next
  case False
  with assms have x: "0 < \<bar>x\<bar>" "\<bar>x\<bar> < 1" by simp_all
  define y where "y = 1 / \<bar>x\<bar>"
  define m where "m = \<lceil>y\<rceil> - 1"
  have y: "1 < y" "0 < y"
    using x by (simp_all add: y_def)
  have m: "0 < m" "of_int m < y" "y \<le> of_int m + 1"
    using y by (simp_all add: m_def) linarith+
  have b: "1 \<le> bitlen m"
    using m(1) by (simp add: bitlen_ge_iff_power)
  from bitlen_bounds [OF m(1)]
  have lo: "(2::int) ^ nat (bitlen m - 1) \<le> m" and hi: "m + 1 \<le> 2 ^ nat (bitlen m)"
    by simp_all
  have e: "binade x = - bitlen m"
    using False by (simp add: binade_def m_def y_def)
  have "(2::real) ^ nat (bitlen m - 1) = of_int (2 ^ nat (bitlen m - 1))"
    by simp
  also have "\<dots> \<le> of_int m"
    using lo by (simp only: of_int_le_iff)
  also have "\<dots> < y"
    by (rule m(2))
  finally have ylo: "(2::real) ^ nat (bitlen m - 1) < y" .
  have "of_int m + 1 \<le> (of_int (2 ^ nat (bitlen m)) :: real)"
    using hi by (metis of_int_1 of_int_add of_int_le_iff)
  also have "\<dots> = 2 ^ nat (bitlen m)"
    by simp
  finally have yhi: "y \<le> (2::real) ^ nat (bitlen m)"
    using m(3) by linarith
  have ax: "\<bar>x\<bar> = 1 / y"
    using x by (simp add: y_def)
  have "1 / (2::real) ^ nat (bitlen m) \<le> 1 / y"
    using yhi y(2) by (simp add: frac_le)
  moreover have "(2::real) powi (- bitlen m) = 1 / 2 ^ nat (bitlen m)"
    using b by (simp add: power_int_def field_simps)
  ultimately have l: "(2::real) powi (- bitlen m) \<le> \<bar>x\<bar>"
    by (simp add: ax)
  have "1 / y < 1 / (2::real) ^ nat (bitlen m - 1)"
    using ylo by (simp add: frac_less2)
  moreover have "(2::real) powi (- bitlen m + 1) = 1 / 2 ^ nat (bitlen m - 1)"
  proof -
    have "- bitlen m + 1 = - int (nat (bitlen m - 1))"
      using b by simp
    then show ?thesis
      by (simp only: power_int_minus power_int_of_nat inverse_eq_divide)
  qed
  ultimately have "\<bar>x\<bar> < 2 powi (- bitlen m + 1)"
    by (simp add: ax)
  with l show ?thesis
    by (simp add: e)
qed

lemma binade_eqI:
  assumes "2 powi e \<le> \<bar>x\<bar>" "\<bar>x\<bar> < 2 powi (e + 1)"
  shows "binade x = e"
proof -
  have "(0::real) < 2 powi e"
    by simp
  with assms(1) have "0 < \<bar>x\<bar>"
    by linarith
  then have "x \<noteq> 0"
    by simp
  note b = binade_bounds [OF this]
  have lt1: "(2::real) powi e < 2 powi (binade x + 1)"
    using assms(1) b by linarith
  have 1: "e < binade x + 1"
  proof (rule ccontr)
    assume "\<not> e < binade x + 1"
    then have "binade x + 1 \<le> e" by simp
    then have "(2::real) powi (binade x + 1) \<le> 2 powi e"
      by (intro power_int_increasing) simp_all
    with lt1 show False by linarith
  qed
  have lt2: "(2::real) powi (binade x) < 2 powi (e + 1)"
    using assms(2) b by linarith
  have 2: "binade x < e + 1"
  proof (rule ccontr)
    assume "\<not> binade x < e + 1"
    then have "e + 1 \<le> binade x" by simp
    then have "(2::real) powi (e + 1) \<le> 2 powi (binade x)"
      by (intro power_int_increasing) simp_all
    with lt2 show False by linarith
  qed
  from 1 2 show ?thesis
    by simp
qed

lemma toDouble_error:
  "\<bar>toDouble x - x\<bar> \<le> 2 powi (max (binade x) (- 1022) - 52) / 2"
proof (cases "x = 0")
  case True
  then show ?thesis by (simp add: toDouble_def)
next
  case False
  define u :: real where "u = 2 powi (max (binade x) (- 1022) - 52)"
  have u: "0 < u" by (simp add: u_def)
  have "toDouble x - x = (of_int (roundHalfEven (x / u)) - x / u) * u"
    using False u by (simp add: toDouble_def Let_def u_def [symmetric] field_simps)
  then have "\<bar>toDouble x - x\<bar> = \<bar>of_int (roundHalfEven (x / u)) - x / u\<bar> * u"
    using u by (simp add: abs_mult)
  also have "\<dots> \<le> 1 / 2 * u"
    using u roundHalfEven_error [of "x / u"] by (intro mult_right_mono) simp_all
  finally show ?thesis
    by (simp add: u_def)
qed

lemma toDouble_relative_error:
  assumes "2 powi (- 1022) \<le> \<bar>x\<bar>"
  shows "\<bar>toDouble x - x\<bar> \<le> \<bar>x\<bar> / 2 ^ 53"
proof -
  have "(0::real) < 2 powi (- 1022)"
    by simp
  with assms have "0 < \<bar>x\<bar>"
    by linarith
  then have x: "x \<noteq> 0"
    by simp
  note b = binade_bounds [OF x]
  have e: "- 1022 \<le> binade x"
  proof (rule ccontr)
    assume "\<not> - 1022 \<le> binade x"
    then have "binade x + 1 \<le> - 1022" by simp
    then have "(2::real) powi (binade x + 1) \<le> 2 powi (- 1022)"
      by (intro power_int_increasing) simp_all
    with b assms show False by linarith
  qed
  have "(2::real) powi (max (binade x) (- 1022) - 52) / 2 = 2 powi (binade x) / 2 ^ 53"
  proof -
    have "(2::real) powi (binade x - 52) = 2 powi (binade x) * 2 powi (- 52)"
      using power_int_add [of "2::real" "binade x" "- 52"] by simp
    also have "(2::real) powi (- 52) = 1 / 2 ^ 52"
      using power_int_minus [of "2::real" 52] by (simp add: inverse_eq_divide)
    finally have "(2::real) powi (binade x - 52) = 2 powi (binade x) / 2 ^ 52"
      by simp
    then show ?thesis
      using e by (simp add: max_def)
  qed
  also have "\<dots> \<le> \<bar>x\<bar> / 2 ^ 53"
    using b by (simp add: divide_right_mono)
  finally show ?thesis
    using toDouble_error [of x] by linarith
qed

lemma toDouble_of_int:
  assumes "\<bar>n\<bar> < 2 ^ 53"
  shows "toDouble (of_int n) = of_int n"
proof (cases "n = 0")
  case True
  then show ?thesis by (simp add: toDouble_def)
next
  case False
  then have pos: "0 < \<bar>n\<bar>" by simp
  have "1 \<le> \<bar>n\<bar>"
    using False by simp
  then have "(1::real) \<le> of_int \<bar>n\<bar>"
    by (simp only: of_int_1_le_iff)
  then have one: "1 \<le> \<bar>real_of_int n\<bar>"
    by simp
  have e: "binade (of_int n) = bitlen \<bar>n\<bar> - 1"
    using one by (simp add: binade_def flip: of_int_abs)
  have lo: "1 \<le> bitlen \<bar>n\<bar>"
    using pos by (simp add: bitlen_ge_iff_power)
  have hi: "bitlen \<bar>n\<bar> \<le> 53"
    using assms by (simp add: bitlen_le_iff_power)
  define k where "k = nat (53 - bitlen \<bar>n\<bar>)"
  have ulp: "(2::real) powi (max (binade (of_int n)) (- 1022) - 52) = inverse (2 ^ k)"
  proof -
    have "max (binade (of_int n)) (- 1022) - 52 = - int k"
      using lo hi by (simp add: e k_def)
    then show ?thesis
      by (simp only: power_int_minus power_int_of_nat)
  qed
  have "real_of_int n / inverse (2 ^ k) = of_int (n * 2 ^ k)"
    by (simp add: field_simps)
  then have "roundHalfEven (real_of_int n / inverse (2 ^ k)) = n * 2 ^ k"
    by (simp only: roundHalfEven_of_int)
  then show ?thesis
    using False by (simp add: toDouble_def Let_def ulp)
qed

lemma toDouble_numeral:
  "\<bar>numeral k :: int\<bar> < 2 ^ 53 \<Longrightarrow> toDouble (numeral k) = numeral k"
  using toDouble_of_int [of "numeral k"] by simp

lemma toDouble_0: "toDouble 0 = 0"
  by (simp add: toDouble_def)

lemma toDouble_1: "toDouble 1 = 1"
  using toDouble_of_int [of 1] by simp

lemmas js_eval = js_sub_def js_mul_def js_div_def toDouble_numeral toDouble_0 toDouble_1

lemma toDouble_599_12: "toDouble (599 / 12) < 50"
  by code_simp

lemma toDouble_100_3: "100 / 3 < toDouble (100 / 3)"
  by code_simp

lemma toDouble_tenth: "toDouble (1 / 10) = 3602879701896397 / 2 ^ 55"
  by code_simp

subsection \<open>Layout data\<close>

lemma Math_min_clamp: "max lo (Math_min v hi) = spec_clamp v lo hi"
  by (cases hi) (auto simp: max_def min_def)

text \<open>
  C1. With at least one column (which the coercion of \<open>columnCount\<close> guarantees), the
  layout data is in single-column mode exactly when the ideal column size
  \<open>(innerWidth - columnSpacing * (columnCount - 1)) / columnCount\<close>, computed as the
  program computes it, every operation rounding to a double, is below \<open>minColumnSize\<close>.
  In single-column mode the column size is the inner width clamped between
  \<open>minColumnSize\<close> and \<open>maxColumnSize\<close> and the row size is \<open>minRowSize\<close>, the aspect
  ratio playing no part; in grid mode the column size is the clamped ideal column size
  and the row size is \<open>colSize * aspectRatio\<close> clamped between \<open>minRowSize\<close> and
  \<open>maxRowSize\<close>. Every clamp lets the minimum win over the maximum. With 12 columns,
  spacing 8 and minimum column size 50, width 687 is single-column and 688 is grid.
\<close>

theorem layoutData_modes:
  assumes "1 \<le> columnCount p"
  shows "(singleCol (layoutData p innerWidth) \<longleftrightarrow>
           js_div (js_sub innerWidth
                     (js_mul (of_int (columnSpacing p)) (js_sub (of_int (columnCount p)) 1)))
                  (of_int (columnCount p)) < minColumnSize p) \<and>
         (singleCol (layoutData p innerWidth) \<longrightarrow>
           colSize (layoutData p innerWidth)
             = spec_clamp innerWidth (minColumnSize p) (maxColumnSize p) \<and>
           rowSize (layoutData p innerWidth) = minRowSize p) \<and>
         (\<not> singleCol (layoutData p innerWidth) \<longrightarrow>
           colSize (layoutData p innerWidth)
             = spec_clamp
                 (js_div (js_sub innerWidth
                            (js_mul (of_int (columnSpacing p)) (js_sub (of_int (columnCount p)) 1)))
                         (of_int (columnCount p)))
                 (minColumnSize p) (maxColumnSize p) \<and>
           rowSize (layoutData p innerWidth)
             = spec_clamp (js_mul (colSize (layoutData p innerWidth)) (aspectRatio p))
                 (minRowSize p) (maxRowSize p)) \<and>
         (columnCount p = 12 \<and> columnSpacing p = 8 \<and> minColumnSize p = 50 \<longrightarrow>
           singleCol (layoutData p 687) \<and> \<not> singleCol (layoutData p 688))"
proof -
  have mode: "singleCol (layoutData p w) \<longleftrightarrow>
           js_div (js_sub w
                     (js_mul (of_int (columnSpacing p)) (js_sub (of_int (columnCount p)) 1)))
                  (of_int (columnCount p)) < minColumnSize p" for w
    by (simp add: layoutData_def Let_def)
  have single: "singleCol (layoutData p innerWidth) \<longrightarrow>
           colSize (layoutData p innerWidth)
             = spec_clamp innerWidth (minColumnSize p) (maxColumnSize p) \<and>
           rowSize (layoutData p innerWidth) = minRowSize p"
    by (simp add: layoutData_def Let_def Math_min_clamp split: if_splits)
  have grid: "\<not> singleCol (layoutData p innerWidth) \<longrightarrow>
           colSize (layoutData p innerWidth)
             = spec_clamp
                 (js_div (js_sub innerWidth
                            (js_mul (of_int (columnSpacing p)) (js_sub (of_int (columnCount p)) 1)))
                         (of_int (columnCount p)))
                 (minColumnSize p) (maxColumnSize p) \<and>
           rowSize (layoutData p innerWidth)
             = spec_clamp (js_mul (colSize (layoutData p innerWidth)) (aspectRatio p))
                 (minRowSize p) (maxRowSize p)"
    by (simp add: layoutData_def Let_def Math_min_clamp split: if_splits)
  have boundary: "singleCol (layoutData p 687) \<and> \<not> singleCol (layoutData p 688)"
    if h: "columnCount p = 12 \<and> columnSpacing p = 8 \<and> minColumnSize p = 50"
  proof -
    have "js_div (js_sub 687 (js_mul 8 (js_sub 12 1))) 12 = toDouble (599 / 12)"
      by (simp add: js_eval)
    moreover have "js_div (js_sub 688 (js_mul 8 (js_sub 12 1))) 12 = 50"
      by (simp add: js_eval)
    ultimately show ?thesis
      using h toDouble_599_12 by (simp add: mode)
  qed
  from mode [of innerWidth] single grid boundary show ?thesis
    by blast
qed

theorem layoutData_modes_witness:
  "1 \<le> columnCount defaultPanel \<and>
   columnCount defaultPanel = 12 \<and> columnSpacing defaultPanel = 8 \<and>
   minColumnSize defaultPanel = 50 \<and>
   singleCol (layoutData defaultPanel 687) \<and>
   colSize (layoutData defaultPanel 687) = 687 \<and>
   rowSize (layoutData defaultPanel 687) = 50 \<and>
   \<not> singleCol (layoutData defaultPanel 688) \<and>
   colSize (layoutData defaultPanel 688) = 50 \<and>
   rowSize (layoutData defaultPanel 688) = 50 \<and>
   1 \<le> columnCount thirdsPanel \<and>
   100 / 3 < minColumnSize thirdsPanel \<and>
   \<not> singleCol (layoutData thirdsPanel 100) \<and>
   colSize (layoutData thirdsPanel 100) = minColumnSize thirdsPanel"
proof -
  have h: "1 \<le> columnCount defaultPanel"
    by (simp add: defaultPanel_def)
  have c: "columnCount defaultPanel = 12 \<and> columnSpacing defaultPanel = 8 \<and>
    minColumnSize defaultPanel = 50"
    by (simp add: defaultPanel_def)
  have modes: "singleCol (layoutData defaultPanel 687) \<and> \<not> singleCol (layoutData defaultPanel 688)"
    using layoutData_modes [OF h, of 687] c by blast
  have s: "colSize (layoutData defaultPanel 687) = 687 \<and> rowSize (layoutData defaultPanel 687) = 50"
    using layoutData_modes [OF h, of 687] modes
    by (simp add: defaultPanel_def)
  have g: "colSize (layoutData defaultPanel 688) = 50 \<and> rowSize (layoutData defaultPanel 688) = 50"
    using layoutData_modes [OF h, of 688] modes
    by (simp add: defaultPanel_def js_eval)
  have h3: "1 \<le> columnCount thirdsPanel"
    by (simp add: thirdsPanel_def)
  have f3: "columnCount thirdsPanel = 3" "columnSpacing thirdsPanel = 0"
    "minColumnSize thirdsPanel = toDouble (100 / 3)" "maxColumnSize thirdsPanel = Infinity"
    by (simp_all add: thirdsPanel_def defaultPanel_def)
  have i3: "js_div (js_sub 100 (js_mul 0 (js_sub 3 1))) 3 = toDouble (100 / 3)"
    by (simp add: js_eval)
  have m3: "\<not> singleCol (layoutData thirdsPanel 100)"
    using layoutData_modes [OF h3, of 100] by (simp add: f3 i3)
  have c3: "colSize (layoutData thirdsPanel 100) = minColumnSize thirdsPanel"
    using layoutData_modes [OF h3, of 100] m3 by (simp add: f3 i3)
  have "100 / 3 < minColumnSize thirdsPanel"
    using toDouble_100_3 by (simp add: f3)
  with h c modes s g h3 m3 c3 show ?thesis
    by simp
qed

subsection \<open>Grid mode\<close>

lemma gridLoop_calls:
  "fst (gridLoop p d m ws) =
     map (\<lambda>w. (w, \<lparr>rx = paddingLeft (boxSizing p) + cell_x (gridCell p d w),
                    ry = paddingTop (boxSizing p) + cell_y (gridCell p d w),
                    rwidth = spec_clamp (cell_w (gridCell p d w))
                               (minWidth (sizeLimits w)) (maxWidth (sizeLimits w)),
                    rheight = spec_clamp (cell_h (gridCell p d w))
                               (minHeight (sizeLimits w)) (maxHeight (sizeLimits w))\<rparr>)) ws"
  by (induction ws arbitrary: m) (simp_all add: Let_def split_beta Math_min_clamp)

lemma gridLoop_maxRow:
  "snd (gridLoop p d m ws) = Max (insert m ((\<lambda>w. row w + rowSpan w - 1) ` set ws))"
proof (induction ws arbitrary: m)
  case Nil
  then show ?case by simp
next
  case (Cons w ws)
  have "Max (insert (max m (row w + rowSpan w - 1)) ((\<lambda>w. row w + rowSpan w - 1) ` set ws))
      = Max (insert m (insert (row w + rowSpan w - 1) ((\<lambda>w. row w + rowSpan w - 1) ` set ws)))"
    by (cases "ws = []") (simp_all add: max.assoc)
  then show ?case
    using Cons.IH [of "max m (row w + rowSpan w - 1)"]
    by (simp add: Let_def split_beta getRow_def getRowSpan_def)
qed

lemma layoutEffects_grid:
  assumes "children p \<noteq> []" "\<not> singleCol (passData p ow)"
  shows "layoutEffects p ow oh =
    (fst (gridLoop p (passData p ow) 0 (children p)),
     Some (of_int (snd (gridLoop p (passData p ow) 0 (children p)) + 1) * rowSize (passData p ow)
        + of_int (snd (gridLoop p (passData p ow) 0 (children p)) * rowSpacing p)
        + verticalSum (boxSizing p)))"
  using assms by (simp add: layoutEffects_def passData_def Let_def split_beta)

lemma layoutEffects_single:
  assumes "children p \<noteq> []" "singleCol (passData p ow)"
  shows "layoutEffects p ow oh =
    (fst (singleColLoop p (passData p ow) (paddingTop (boxSizing p)) (Array_sort widgetCmp (children p))),
     Some (snd (singleColLoop p (passData p ow) (paddingTop (boxSizing p)) (Array_sort widgetCmp (children p)))))"
  using assms by (simp add: layoutEffects_def passData_def Let_def split_beta)

lemma gridCell_adj:
  "adjCol (gridCell p d w) = min (column w) (columnCount p - 1)"
  "adjColSpan (gridCell p d w) = min (columnSpan w) (columnCount p - adjCol (gridCell p d w))"
  "cell_x (gridCell p d w) = of_int (adjCol (gridCell p d w)) * (colSize d + of_int (columnSpacing p))"
  "cell_y (gridCell p d w) = of_int (row w) * (rowSize d + of_int (rowSpacing p))"
  "cell_w (gridCell p d w) = of_int (adjColSpan (gridCell p d w)) * colSize d + (of_int (columnSpan w) - 1) * of_int (columnSpacing p)"
  "cell_h (gridCell p d w) = of_int (rowSpan w) * rowSize d + (of_int (rowSpan w) - 1) * of_int (rowSpacing p)"
  by (simp_all add: gridCell_def Let_def getRow_def getRowSpan_def getColumn_def getColumnSpan_def)


lemma ToInt32_small: "ToInt32 10 = 10" "ToInt32 5 = 5" "ToInt32 2 = 2" "ToInt32 3 = 3"
  by (simp_all add: ToInt32_def truncToZero_def)

lemma spanWidget_eq: "spanWidget = \<lparr>wid = 0, row = 0, column = 10, rowSpan = 1, columnSpan = 5, sizeLimits = noLimits\<rparr>"
  by (simp add: spanWidget_def setColumnSpan_def setColumn_def defaultWidget_def
      column_coerce_def columnSpan_coerce_def ToInt32_small)

text \<open>
  C2. In grid mode the items are laid out in container order, and every item's rectangle
  has its origin at \<open>x = adjCol * (colSize + columnSpacing)\<close> plus the left padding and
  \<open>y = row * (rowSize + rowSpacing)\<close> plus the top padding, the row being used as
  declared. The adjusted column is \<open>min column (columnCount - 1)\<close> (not negative, since
  coercion keeps \<open>column\<close> at 0 or more and \<open>columnCount\<close> at 1 or more), the adjusted span
  is \<open>min columnSpan (columnCount - adjCol)\<close>, and together they stay within
  \<open>columnCount\<close>. An item at column 10 with span 5 on 12 columns has adjusted span 2.
\<close>

theorem grid_origin:
  assumes "children p \<noteq> []" and "\<not> singleCol (passData p ow)"
  shows "map (\<lambda>(w, r). (w, rx r, ry r)) (fst (layoutEffects p ow oh)) =
           map (\<lambda>w. (w,
                  paddingLeft (boxSizing p) + of_int (min (column w) (columnCount p - 1))
                    * (colSize (passData p ow) + of_int (columnSpacing p)),
                  paddingTop (boxSizing p) + of_int (row w)
                    * (rowSize (passData p ow) + of_int (rowSpacing p)))) (children p) \<and>
         (\<forall>w. adjCol (gridCell p (passData p ow) w) = min (column w) (columnCount p - 1) \<and>
              adjColSpan (gridCell p (passData p ow) w)
                = min (columnSpan w) (columnCount p - adjCol (gridCell p (passData p ow) w)) \<and>
              adjCol (gridCell p (passData p ow) w) + adjColSpan (gridCell p (passData p ow) w)
                \<le> columnCount p \<and>
              (0 \<le> column w \<and> 1 \<le> columnCount p \<longrightarrow> 0 \<le> adjCol (gridCell p (passData p ow) w)) \<and>
              (column w = 10 \<and> columnSpan w = 5 \<and> columnCount p = 12
                 \<longrightarrow> adjColSpan (gridCell p (passData p ow) w) = 2))"
proof -
  have "layoutEffects p ow oh
      = (fst (gridLoop p (passData p ow) 0 (children p)),
         Some (of_int (snd (gridLoop p (passData p ow) 0 (children p)) + 1) * rowSize (passData p ow)
        + of_int (snd (gridLoop p (passData p ow) 0 (children p)) * rowSpacing p)
        + verticalSum (boxSizing p)))"
    using assms by (rule layoutEffects_grid)
  then have calls: "fst (layoutEffects p ow oh) = fst (gridLoop p (passData p ow) 0 (children p))"
    by simp
  have pos: "map (\<lambda>(w, r). (w, rx r, ry r)) (fst (layoutEffects p ow oh)) =
           map (\<lambda>w. (w,
                  paddingLeft (boxSizing p) + of_int (min (column w) (columnCount p - 1))
                    * (colSize (passData p ow) + of_int (columnSpacing p)),
                  paddingTop (boxSizing p) + of_int (row w)
                    * (rowSize (passData p ow) + of_int (rowSpacing p)))) (children p)"
    unfolding calls gridLoop_calls by (simp add: gridCell_adj)
  have adj: "adjCol (gridCell p (passData p ow) w) = min (column w) (columnCount p - 1) \<and>
              adjColSpan (gridCell p (passData p ow) w)
                = min (columnSpan w) (columnCount p - adjCol (gridCell p (passData p ow) w)) \<and>
              adjCol (gridCell p (passData p ow) w) + adjColSpan (gridCell p (passData p ow) w)
                \<le> columnCount p \<and>
              (0 \<le> column w \<and> 1 \<le> columnCount p \<longrightarrow> 0 \<le> adjCol (gridCell p (passData p ow) w)) \<and>
              (column w = 10 \<and> columnSpan w = 5 \<and> columnCount p = 12
                 \<longrightarrow> adjColSpan (gridCell p (passData p ow) w) = 2)" for w
    by (simp add: gridCell_adj)
  from pos adj show ?thesis by blast
qed

lemma spanPanel_grid: "\<not> singleCol (passData spanPanel 1288)"
  by (simp add: passData_def spanPanel_def defaultPanel_def noBox_def layoutData_def js_eval)

lemma spanPanel_data: "colSize (passData spanPanel 1288) = 100" "rowSize (passData spanPanel 1288) = 100"
  by (simp_all add: passData_def spanPanel_def defaultPanel_def noBox_def layoutData_def js_eval)

theorem grid_origin_witness:
  "children spanPanel \<noteq> [] \<and> \<not> singleCol (passData spanPanel 1288) \<and>
   map (\<lambda>(w, r). (w, rx r, ry r)) (fst (layoutEffects spanPanel 1288 0)) = [(spanWidget, 1080, 0)] \<and>
   adjCol (gridCell spanPanel (passData spanPanel 1288) spanWidget) = 10 \<and>
   adjColSpan (gridCell spanPanel (passData spanPanel 1288) spanWidget) = 2"
proof -
  have c: "children spanPanel \<noteq> []"
    by (simp add: spanPanel_def)
  note t = grid_origin [OF c spanPanel_grid, of 0]
  have f: "children spanPanel = [spanWidget]" "columnCount spanPanel = 12"
    "columnSpacing spanPanel = 8" "rowSpacing spanPanel = 8" "boxSizing spanPanel = noBox"
    by (simp_all add: spanPanel_def defaultPanel_def)
  have w: "column spanWidget = 10" "columnSpan spanWidget = 5" "row spanWidget = 0"
    by (simp_all add: spanWidget_eq)
  from t have "adjCol (gridCell spanPanel (passData spanPanel 1288) spanWidget) = 10"
    "adjColSpan (gridCell spanPanel (passData spanPanel 1288) spanWidget) = 2"
    by (simp_all add: f w)
  moreover from t have "map (\<lambda>(w, r). (w, rx r, ry r)) (fst (layoutEffects spanPanel 1288 0)) = [(spanWidget, 1080, 0)]"
    by (simp add: f w spanPanel_data noBox_def)
  ultimately show ?thesis
    using c spanPanel_grid by simp
qed

lemma spec_clamp_bounds:
  "lo \<le> spec_clamp v lo hi"
  "hi = Finite m \<Longrightarrow> lo \<le> m \<Longrightarrow> spec_clamp v lo hi \<le> m"
  by (cases hi; simp)+

text \<open>
  C3. In grid mode every item's rectangle has the width and height that the loop computes
  for its cell, clamped against the item's own limits: the width before the limits is
  \<open>adjColSpan * colSize + (columnSpan - 1) * columnSpacing\<close>, with the adjusted span
  counting the cells and the declared span counting the gaps, and the height is
  \<open>rowSpan * rowSize + (rowSpan - 1) * rowSpacing\<close>. The item's limits win over the
  grid: the result is never below the item's minimum and, when the item's minimum does
  not exceed its maximum, never above the maximum. An item with maximum width 40 (and a
  minimum no larger) in a grid with column size 100 gets width 40.
\<close>

theorem grid_size:
  assumes "children p \<noteq> []" and "\<not> singleCol (passData p ow)"
  shows "map (\<lambda>(w, r). (w, rwidth r, rheight r)) (fst (layoutEffects p ow oh)) =
           map (\<lambda>w. (w,
                  spec_clamp (cell_w (gridCell p (passData p ow) w))
                    (minWidth (sizeLimits w)) (maxWidth (sizeLimits w)),
                  spec_clamp (cell_h (gridCell p (passData p ow) w))
                    (minHeight (sizeLimits w)) (maxHeight (sizeLimits w)))) (children p) \<and>
         (\<forall>w. cell_w (gridCell p (passData p ow) w)
                = of_int (min (columnSpan w) (columnCount p - min (column w) (columnCount p - 1)))
                    * colSize (passData p ow)
                  + (of_int (columnSpan w) - 1) * of_int (columnSpacing p) \<and>
              cell_h (gridCell p (passData p ow) w)
                = of_int (rowSpan w) * rowSize (passData p ow)
                  + (of_int (rowSpan w) - 1) * of_int (rowSpacing p)) \<and>
         (\<forall>(w, r) \<in> set (fst (layoutEffects p ow oh)).
              minWidth (sizeLimits w) \<le> rwidth r \<and> minHeight (sizeLimits w) \<le> rheight r \<and>
              (\<forall>m. maxWidth (sizeLimits w) = Finite m \<and> minWidth (sizeLimits w) \<le> m
                    \<longrightarrow> rwidth r \<le> m) \<and>
              (\<forall>m. maxHeight (sizeLimits w) = Finite m \<and> minHeight (sizeLimits w) \<le> m
                    \<longrightarrow> rheight r \<le> m) \<and>
              (colSize (passData p ow) = 100 \<and> maxWidth (sizeLimits w) = Finite 40 \<and>
               minWidth (sizeLimits w) \<le> 40 \<and> 1 \<le> columnSpan w \<and> 0 \<le> columnSpacing p
                 \<longrightarrow> rwidth r = 40))"
proof -
  let ?d = "passData p ow"
  have "layoutEffects p ow oh
      = (fst (gridLoop p ?d 0 (children p)),
         Some (of_int (snd (gridLoop p ?d 0 (children p)) + 1) * rowSize ?d
        + of_int (snd (gridLoop p ?d 0 (children p)) * rowSpacing p)
        + verticalSum (boxSizing p)))"
    using assms by (rule layoutEffects_grid)
  then have calls: "fst (layoutEffects p ow oh) = fst (gridLoop p ?d 0 (children p))"
    by simp
  have sizes: "map (\<lambda>(w, r). (w, rwidth r, rheight r)) (fst (layoutEffects p ow oh)) =
           map (\<lambda>w. (w,
                  spec_clamp (cell_w (gridCell p ?d w))
                    (minWidth (sizeLimits w)) (maxWidth (sizeLimits w)),
                  spec_clamp (cell_h (gridCell p ?d w))
                    (minHeight (sizeLimits w)) (maxHeight (sizeLimits w)))) (children p)"
    unfolding calls gridLoop_calls by simp
  have formula: "cell_w (gridCell p ?d w)
                = of_int (min (columnSpan w) (columnCount p - min (column w) (columnCount p - 1)))
                    * colSize ?d
                  + (of_int (columnSpan w) - 1) * of_int (columnSpacing p) \<and>
              cell_h (gridCell p ?d w)
                = of_int (rowSpan w) * rowSize ?d
                  + (of_int (rowSpan w) - 1) * of_int (rowSpacing p)" for w
    by (simp add: gridCell_adj)
  have limitsWin: "minWidth (sizeLimits w) \<le> rwidth r \<and> minHeight (sizeLimits w) \<le> rheight r \<and>
              (\<forall>m. maxWidth (sizeLimits w) = Finite m \<and> minWidth (sizeLimits w) \<le> m
                    \<longrightarrow> rwidth r \<le> m) \<and>
              (\<forall>m. maxHeight (sizeLimits w) = Finite m \<and> minHeight (sizeLimits w) \<le> m
                    \<longrightarrow> rheight r \<le> m) \<and>
              (colSize ?d = 100 \<and> maxWidth (sizeLimits w) = Finite 40 \<and>
               minWidth (sizeLimits w) \<le> 40 \<and> 1 \<le> columnSpan w \<and> 0 \<le> columnSpacing p
                 \<longrightarrow> rwidth r = 40)"
    if "(w, r) \<in> set (fst (layoutEffects p ow oh))" for w r
  proof -
    from that have rw: "rwidth r = spec_clamp (cell_w (gridCell p ?d w))
                    (minWidth (sizeLimits w)) (maxWidth (sizeLimits w))"
      and rh: "rheight r = spec_clamp (cell_h (gridCell p ?d w))
                    (minHeight (sizeLimits w)) (maxHeight (sizeLimits w))"
      unfolding calls gridLoop_calls by auto
    have ex: "rwidth r = 40"
      if h: "colSize ?d = 100" "maxWidth (sizeLimits w) = Finite 40"
        "minWidth (sizeLimits w) \<le> 40" "1 \<le> columnSpan w" "0 \<le> columnSpacing p"
    proof -
      have "1 \<le> adjColSpan (gridCell p ?d w)"
        using h(4) by (simp add: gridCell_adj)
      then have "(1::real) \<le> of_int (adjColSpan (gridCell p ?d w))"
        by linarith
      then have a: "100 \<le> of_int (adjColSpan (gridCell p ?d w)) * colSize ?d"
        by (simp add: h(1))
      have "(0::real) \<le> (of_int (columnSpan w) - 1) * of_int (columnSpacing p)"
        using h(4) h(5) by simp
      with a have "100 \<le> cell_w (gridCell p ?d w)"
        by (simp add: gridCell_adj(5))
      then show ?thesis
        using h(2) h(3) by (simp add: rw)
    qed
    show ?thesis
      using ex by (simp add: rw rh spec_clamp_bounds)
  qed
  from sizes formula limitsWin show ?thesis
    by blast
qed


lemma narrowPanel_data:
  "\<not> singleCol (passData narrowPanel 1288)" "colSize (passData narrowPanel 1288) = 100"
  "rowSize (passData narrowPanel 1288) = 100"
  by (simp_all add: passData_def narrowPanel_def defaultPanel_def noBox_def layoutData_def js_eval)

theorem grid_size_witness:
  "children narrowPanel \<noteq> [] \<and> \<not> singleCol (passData narrowPanel 1288) \<and>
   colSize (passData narrowPanel 1288) = 100 \<and> maxWidth (sizeLimits narrowWidget) = Finite 40 \<and>
   minWidth (sizeLimits narrowWidget) \<le> 40 \<and> 1 \<le> columnSpan narrowWidget \<and>
   0 \<le> columnSpacing narrowPanel \<and>
   map (\<lambda>(w, r). (w, rwidth r, rheight r)) (fst (layoutEffects narrowPanel 1288 0))
     = [(narrowWidget, 40, 100)]"
proof -
  have c: "children narrowPanel \<noteq> []"
    by (simp add: narrowPanel_def)
  note t = grid_size [OF c narrowPanel_data(1), of 0]
  have f: "children narrowPanel = [narrowWidget]" "columnCount narrowPanel = 12"
    "columnSpacing narrowPanel = 8" "rowSpacing narrowPanel = 8"
    by (simp_all add: narrowPanel_def defaultPanel_def)
  have w: "column narrowWidget = 0" "columnSpan narrowWidget = 1" "rowSpan narrowWidget = 1"
    "minWidth (sizeLimits narrowWidget) = 0" "maxWidth (sizeLimits narrowWidget) = Finite 40"
    "minHeight (sizeLimits narrowWidget) = 0" "maxHeight (sizeLimits narrowWidget) = Infinity"
    by (simp_all add: narrowWidget_def defaultWidget_def noLimits_def)
  from t have "map (\<lambda>(w, r). (w, rwidth r, rheight r)) (fst (layoutEffects narrowPanel 1288 0))
     = [(narrowWidget, 40, 100)]"
    by (simp add: f w narrowPanel_data)
  then show ?thesis
    using c narrowPanel_data by (simp add: f w)
qed

text \<open>
  C4. The claim is that the rectangle computed in grid mode, before the item's limits,
  never passes the right edge \<open>left + columnCount * colSize + (columnCount - 1) *
  columnSpacing\<close>. The code clamps the span for the cells but counts the gaps with the
  declared span: on a default panel 1288 wide (12 columns of 100, spacing 8), an item at
  column 10 with span 5 is placed at 1080 with width 232, and ends at 1312, beyond the
  edge at 1288.
\<close>

theorem grid_right_edge_overflow:
  "\<not> singleCol (passData spanPanel 1288) \<and>
   fst (layoutEffects spanPanel 1288 0)
     = [(spanWidget, \<lparr>rx = 1080, ry = 0, rwidth = 232, rheight = 100\<rparr>)] \<and>
   paddingLeft (boxSizing spanPanel) + cell_x (gridCell spanPanel (passData spanPanel 1288) spanWidget)
     + cell_w (gridCell spanPanel (passData spanPanel 1288) spanWidget) = 1312 \<and>
   paddingLeft (boxSizing spanPanel)
     + of_int (columnCount spanPanel) * colSize (passData spanPanel 1288)
     + of_int (columnCount spanPanel - 1) * of_int (columnSpacing spanPanel) = 1288"
proof -
  have f: "children spanPanel = [spanWidget]" "columnCount spanPanel = 12"
    "columnSpacing spanPanel = 8" "rowSpacing spanPanel = 8" "boxSizing spanPanel = noBox"
    by (simp_all add: spanPanel_def defaultPanel_def)
  have w: "column spanWidget = 10" "columnSpan spanWidget = 5" "row spanWidget = 0"
    "rowSpan spanWidget = 1" "sizeLimits spanWidget = noLimits"
    by (simp_all add: spanWidget_eq)
  have "layoutEffects spanPanel 1288 0 =
    (fst (gridLoop spanPanel (passData spanPanel 1288) 0 (children spanPanel)),
     Some (of_int (snd (gridLoop spanPanel (passData spanPanel 1288) 0 (children spanPanel)) + 1)
          * rowSize (passData spanPanel 1288)
        + of_int (snd (gridLoop spanPanel (passData spanPanel 1288) 0 (children spanPanel))
          * rowSpacing spanPanel)
        + verticalSum (boxSizing spanPanel)))"
    by (rule layoutEffects_grid) (simp_all add: f spanPanel_grid)
  then have "fst (layoutEffects spanPanel 1288 0)
     = [(spanWidget, \<lparr>rx = 1080, ry = 0, rwidth = 232, rheight = 100\<rparr>)]"
    by (simp add: gridLoop_calls gridCell_adj f w spanPanel_data noBox_def noLimits_def)
  then show ?thesis
    using spanPanel_grid by (simp add: gridCell_adj f w spanPanel_data noBox_def)
qed

text \<open>
  C7. In grid mode with at least one item, the height written to the sizer is
  \<open>(maxRow + 1) * rowSize + maxRow * rowSpacing\<close> plus the vertical sum of the panel's
  box, where \<open>maxRow\<close> is the largest \<open>row + rowSpan - 1\<close> over the items, and at least
  0, the row span being taken as declared. With row size 50, row spacing 8 and a single
  item at row 2 with row span 3, \<open>maxRow\<close> is 4 and the height is 282 plus the box.
\<close>

theorem grid_extent:
  assumes "children p \<noteq> []" and "\<not> singleCol (passData p ow)"
  shows "snd (layoutEffects p ow oh) =
           Some (of_int (Max (insert 0 ((\<lambda>w. row w + rowSpan w - 1) ` set (children p))) + 1)
                   * rowSize (passData p ow)
                 + of_int (Max (insert 0 ((\<lambda>w. row w + rowSpan w - 1) ` set (children p))))
                   * of_int (rowSpacing p)
                 + verticalSum (boxSizing p)) \<and>
         (rowSize (passData p ow) = 50 \<and> rowSpacing p = 8 \<and>
          (\<exists>w. children p = [w] \<and> row w = 2 \<and> rowSpan w = 3)
            \<longrightarrow> Max (insert 0 ((\<lambda>w. row w + rowSpan w - 1) ` set (children p))) = 4 \<and>
                snd (layoutEffects p ow oh) = Some (282 + verticalSum (boxSizing p)))"
proof -
  let ?d = "passData p ow"
  let ?M = "Max (insert 0 ((\<lambda>w. row w + rowSpan w - 1) ` set (children p)))"
  have "layoutEffects p ow oh
      = (fst (gridLoop p ?d 0 (children p)),
         Some (of_int (snd (gridLoop p ?d 0 (children p)) + 1) * rowSize ?d
        + of_int (snd (gridLoop p ?d 0 (children p)) * rowSpacing p)
        + verticalSum (boxSizing p)))"
    using assms by (rule layoutEffects_grid)
  then have ext: "snd (layoutEffects p ow oh) =
           Some (of_int (?M + 1) * rowSize ?d + of_int ?M * of_int (rowSpacing p)
                 + verticalSum (boxSizing p))"
    by (simp add: gridLoop_maxRow)
  have "?M = 4 \<and> snd (layoutEffects p ow oh) = Some (282 + verticalSum (boxSizing p))"
    if h: "rowSize ?d = 50" "rowSpacing p = 8" "\<exists>w. children p = [w] \<and> row w = 2 \<and> rowSpan w = 3"
  proof -
    from h(3) have m: "?M = 4" by auto
    show ?thesis
      unfolding ext m by (simp add: h(1) h(2))
  qed
  with ext show ?thesis
    by blast
qed

lemma tallWidget_eq: "tallWidget = \<lparr>wid = 0, row = 2, column = 0, rowSpan = 3, columnSpan = 1, sizeLimits = noLimits\<rparr>"
  by (simp add: tallWidget_def setRowSpan_def setRow_def defaultWidget_def
      row_coerce_def rowSpan_coerce_def ToInt32_small)

lemma tallPanel_data:
  "\<not> singleCol (passData tallPanel 688)" "colSize (passData tallPanel 688) = 50"
  "rowSize (passData tallPanel 688) = 50"
  by (simp_all add: passData_def tallPanel_def defaultPanel_def noBox_def layoutData_def js_eval)

theorem grid_extent_witness:
  "children tallPanel \<noteq> [] \<and> \<not> singleCol (passData tallPanel 688) \<and>
   rowSize (passData tallPanel 688) = 50 \<and> rowSpacing tallPanel = 8 \<and>
   children tallPanel = [tallWidget] \<and> row tallWidget = 2 \<and> rowSpan tallWidget = 3 \<and>
   snd (layoutEffects tallPanel 688 0) = Some 282"
proof -
  have c: "children tallPanel \<noteq> []"
    by (simp add: tallPanel_def)
  note t = grid_extent [OF c tallPanel_data(1), of 0]
  have f: "children tallPanel = [tallWidget]" "rowSpacing tallPanel = 8"
    "verticalSum (boxSizing tallPanel) = 0"
    by (simp_all add: tallPanel_def defaultPanel_def noBox_def)
  have w: "row tallWidget = 2" "rowSpan tallWidget = 3"
    by (simp_all add: tallWidget_eq)
  from t have "snd (layoutEffects tallPanel 688 0) = Some 282"
    by (simp add: f w tallPanel_data)
  then show ?thesis
    using c tallPanel_data by (simp add: f w)
qed

subsection \<open>Single-column mode\<close>

lemma passData_children: "passData (p\<lparr>children := cs\<rparr>) ow = passData p ow"
  by (simp add: passData_def layoutData_def Let_def)

lemma singleColLoop_children:
  "singleColLoop (p\<lparr>children := cs\<rparr>) d y ws = singleColLoop p d y ws"
  by (induction ws arbitrary: y) simp_all

lemma singleColLoop_length: "length (fst (singleColLoop p d y ws)) = length ws"
  by (induction ws arbitrary: y) (simp_all add: Let_def split_beta)

lemma singleColLoop_widgets: "map fst (fst (singleColLoop p d y ws)) = ws"
  by (induction ws arbitrary: y) (simp_all add: Let_def split_beta)

lemma singleColLoop_cursor:
  "snd (singleColLoop p d y ws) = y + (\<Sum>w\<leftarrow>ws. slotHeight p d w + of_int (rowSpacing p))"
  by (induction ws arbitrary: y)
    (simp_all add: Let_def split_beta slotHeight_def getRowSpan_def algebra_simps)

lemma singleColLoop_nth:
  "i < length ws \<Longrightarrow>
   fst (singleColLoop p d y ws) ! i =
     (ws ! i,
      \<lparr>rx = paddingLeft (boxSizing p),
       ry = y + (\<Sum>w\<leftarrow>take i ws. slotHeight p d w + of_int (rowSpacing p)),
       rwidth = spec_clamp (colSize d) (minWidth (sizeLimits (ws ! i))) (maxWidth (sizeLimits (ws ! i))),
       rheight = spec_clamp (slotHeight p d (ws ! i))
                   (minHeight (sizeLimits (ws ! i))) (maxHeight (sizeLimits (ws ! i)))\<rparr>)"
proof (induction ws arbitrary: y i)
  case Nil
  then show ?case by simp
next
  case (Cons w ws)
  show ?case
  proof (cases i)
    case 0
    then show ?thesis
      by (simp add: Let_def split_beta slotHeight_def getRowSpan_def Math_min_clamp algebra_simps)
  next
    case (Suc j)
    with Cons.prems have "j < length ws" by simp
    from Cons.IH [OF this] Suc show ?thesis
      by (simp add: Let_def split_beta slotHeight_def getRowSpan_def algebra_simps)
  qed
qed

lemma widgetCmp_le: "widgetCmp a b \<le> 0 \<longleftrightarrow> rowColumnLe a b"
  by (auto simp: widgetCmp_def rowColumnLe_def Let_def getRow_def getColumn_def)

lemma mset_sortInsert: "mset (sortInsert cmp a xs) = add_mset a (mset xs)"
  by (induction xs) simp_all

lemma mset_Array_sort: "mset (Array_sort cmp xs) = mset xs"
  by (induction xs) (simp_all add: mset_sortInsert)

lemma set_sortInsert: "set (sortInsert cmp a xs) = insert a (set xs)"
  using mset_sortInsert [of cmp a xs, THEN arg_cong, of set_mset] by simp

lemma sorted_sortInsert:
  "sorted_wrt rowColumnLe xs \<Longrightarrow> sorted_wrt rowColumnLe (sortInsert widgetCmp a xs)"
proof (induction xs)
  case Nil
  then show ?case by simp
next
  case (Cons b bs)
  show ?case
  proof (cases "widgetCmp a b \<le> 0")
    case True
    then have ab: "rowColumnLe a b" by (simp add: widgetCmp_le)
    have "rowColumnLe a c" if "c \<in> set bs" for c
      using ab that Cons.prems by (auto simp: rowColumnLe_def)
    with ab True Cons.prems show ?thesis by auto
  next
    case False
    then have "rowColumnLe b a"
      by (auto simp: widgetCmp_le rowColumnLe_def)
    with False Cons show ?thesis
      by (auto simp: set_sortInsert)
  qed
qed

lemma sorted_Array_sort: "sorted_wrt rowColumnLe (Array_sort widgetCmp xs)"
  by (induction xs) (simp_all add: sorted_sortInsert)

lemma widgetCmp_relimit: "widgetCmp (relimit f a) (relimit g b) = widgetCmp a b"
  by (simp add: widgetCmp_def relimit_def getRow_def getColumn_def Let_def)

lemma sortInsert_relimit:
  "sortInsert widgetCmp (relimit f a) (map (relimit f) xs) = map (relimit f) (sortInsert widgetCmp a xs)"
  by (induction xs) (simp_all add: widgetCmp_relimit)

lemma Array_sort_relimit:
  "Array_sort widgetCmp (map (relimit f) xs) = map (relimit f) (Array_sort widgetCmp xs)"
  by (induction xs) (simp_all add: sortInsert_relimit)

lemma length_Array_sort: "length (Array_sort cmp xs) = length xs"
  using mset_Array_sort [of cmp xs, THEN arg_cong, of size] by simp

lemma sum_list_Array_sort:
  fixes f :: "'a \<Rightarrow> real"
  shows "(\<Sum>w\<leftarrow>Array_sort cmp xs. f w) = (\<Sum>w\<leftarrow>xs. f w)"
proof -
  have "sum_mset (image_mset f (mset (Array_sort cmp xs))) = sum_mset (image_mset f (mset xs))"
    by (simp add: mset_Array_sort)
  then show ?thesis
    by (simp add: sum_mset_sum_list flip: mset_map)
qed

lemma singleColLoop_ry_lower:
  assumes "\<forall>w\<in>set ws. 0 \<le> slotHeight p d w + of_int (rowSpacing p)"
  shows "\<forall>c\<in>set (fst (singleColLoop p d y ws)). y \<le> ry (snd c)"
  using assms
proof (induction ws arbitrary: y)
  case Nil
  then show ?case by simp
next
  case (Cons w ws)
  have step: "0 \<le> slotHeight p d w + of_int (rowSpacing p)"
    using Cons.prems by simp
  have "\<forall>c\<in>set (fst (singleColLoop p d (y + slotHeight p d w + of_int (rowSpacing p)) ws)).
          y + slotHeight p d w + of_int (rowSpacing p) \<le> ry (snd c)"
    using Cons.IH Cons.prems by simp
  with step have "\<forall>c\<in>set (fst (singleColLoop p d (y + slotHeight p d w + of_int (rowSpacing p)) ws)).
          y \<le> ry (snd c)"
    by fastforce
  then show ?case
    by (simp add: Let_def split_beta slotHeight_def getRowSpan_def algebra_simps)
qed

lemma singleColLoop_sorted:
  assumes "\<forall>w\<in>set ws. 0 \<le> slotHeight p d w + of_int (rowSpacing p)"
  shows "sorted (map (\<lambda>c. ry (snd c)) (fst (singleColLoop p d y ws)))"
  using assms
proof (induction ws arbitrary: y)
  case Nil
  then show ?case by simp
next
  case (Cons w ws)
  have step: "0 \<le> slotHeight p d w + of_int (rowSpacing p)"
    using Cons.prems by simp
  have low: "\<forall>c\<in>set (fst (singleColLoop p d (y + slotHeight p d w + of_int (rowSpacing p)) ws)).
          y + slotHeight p d w + of_int (rowSpacing p) \<le> ry (snd c)"
    by (rule singleColLoop_ry_lower) (use Cons.prems in simp)
  with step have "\<forall>c\<in>set (fst (singleColLoop p d (y + slotHeight p d w + of_int (rowSpacing p)) ws)).
          y \<le> ry (snd c)"
    by fastforce
  moreover have "sorted (map (\<lambda>c. ry (snd c))
      (fst (singleColLoop p d (y + slotHeight p d w + of_int (rowSpacing p)) ws)))"
    using Cons.IH Cons.prems by simp
  ultimately show ?case
    by (simp add: Let_def split_beta slotHeight_def getRowSpan_def algebra_simps)
qed

lemma singleColLoop_rx:
  "\<forall>c\<in>set (fst (singleColLoop p d y ws)). rx (snd c) = paddingLeft (boxSizing p)"
  by (induction ws arbitrary: y) (simp_all add: Let_def split_beta)

lemma slotHeight_nonneg:
  assumes "0 \<le> rowSize d" "0 \<le> rowSpacing p" "1 \<le> rowSpan w"
  shows "0 \<le> slotHeight p d w + of_int (rowSpacing p)"
proof -
  have "(0::real) \<le> of_int (rowSpan w) * rowSize d"
    using assms(1) assms(3) by simp
  moreover have "(0::real) \<le> (of_int (rowSpan w) - 1) * of_int (rowSpacing p)"
    using assms(2) assms(3) by simp
  moreover have "(0::real) \<le> of_int (rowSpacing p)"
    using assms(2) by simp
  ultimately show ?thesis
    unfolding slotHeight_def by linarith
qed

lemma singleCol_rowSize: "singleCol (passData p ow) \<Longrightarrow> rowSize (passData p ow) = minRowSize p"
  by (simp add: passData_def layoutData_def Let_def split: if_splits)

lemma Array_sort_three:
  assumes "map (\<lambda>w. (row w, column w)) ws = [(1, 0), (0, 5), (0, 1)]"
  shows "map (\<lambda>w. (row w, column w)) (Array_sort widgetCmp ws) = [(0, 1), (0, 5), (1, 0)]"
proof -
  from assms obtain a b c where ws: "ws = [a, b, c]"
    and k: "row a = 1" "column a = 0" "row b = 0" "column b = 5" "row c = 0" "column c = 1"
    by (auto simp: map_eq_Cons_conv)
  show ?thesis
    by (simp add: ws k widgetCmp_def getRow_def getColumn_def Let_def)
qed

lemma singleColLoop_rects:
  "map (\<lambda>w. (rowSpan w, sizeLimits w)) ws = map (\<lambda>w. (rowSpan w, sizeLimits w)) ws' \<Longrightarrow>
   map snd (fst (singleColLoop p d y ws)) = map snd (fst (singleColLoop p d y ws'))"
proof (induction ws arbitrary: ws' y)
  case Nil
  then show ?case by simp
next
  case (Cons w ws)
  then obtain w' rest where ws': "ws' = w' # rest" and w: "rowSpan w' = rowSpan w"
    "sizeLimits w' = sizeLimits w"
    and r: "map (\<lambda>w. (rowSpan w, sizeLimits w)) ws = map (\<lambda>w. (rowSpan w, sizeLimits w)) rest"
    by (cases ws') auto
  show ?case
    using Cons.IH [OF r] by (simp add: ws' w Let_def split_beta getRowSpan_def)
qed

text \<open>
  C5. In single-column mode the items are laid out in the order of the sorted child
  list, which is ascending in (row, then column) and holds exactly the children, and they
  are stacked from the top padding downwards: every item is placed at the left padding,
  the first at the top padding, and each next one below the previous by that item's slot
  height \<open>rowSpan * rowSize + (rowSpan - 1) * rowSpacing\<close> plus one row spacing, so
  that the rectangle of the i-th item is given by the row spans of the items before it
  and its own limits. The declared rows and columns only order the items: any children
  whose sorted order carries the same row spans and limits get the same rectangles. With
  legal property values the vertical offsets never decrease. Items declared at (1, 0),
  (0, 5), (0, 1) are laid out in the order (0, 1), (0, 5), (1, 0).
\<close>

theorem single_column_order:
  assumes "children p \<noteq> []" and "singleCol (passData p ow)"
  shows "map fst (fst (layoutEffects p ow oh)) = Array_sort widgetCmp (children p) \<and>
         sorted_wrt rowColumnLe (map fst (fst (layoutEffects p ow oh))) \<and>
         mset (map fst (fst (layoutEffects p ow oh))) = mset (children p) \<and>
         (\<forall>c\<in>set (fst (layoutEffects p ow oh)). rx (snd c) = paddingLeft (boxSizing p)) \<and>
         (0 \<le> minRowSize p \<and> 0 \<le> rowSpacing p \<and> (\<forall>w\<in>set (children p). 1 \<le> rowSpan w)
            \<longrightarrow> sorted (map (\<lambda>c. ry (snd c)) (fst (layoutEffects p ow oh)))) \<and>
         (map (\<lambda>w. (row w, column w)) (children p) = [(1, 0), (0, 5), (0, 1)]
            \<longrightarrow> map (\<lambda>c. (row (fst c), column (fst c))) (fst (layoutEffects p ow oh))
                  = [(0, 1), (0, 5), (1, 0)]) \<and>
         length (fst (layoutEffects p ow oh)) = length (children p) \<and>
         (\<forall>i<length (children p).
            snd (fst (layoutEffects p ow oh) ! i) =
              \<lparr>rx = paddingLeft (boxSizing p),
               ry = paddingTop (boxSizing p)
                    + (\<Sum>w\<leftarrow>take i (Array_sort widgetCmp (children p)).
                         of_int (rowSpan w) * rowSize (passData p ow)
                         + (of_int (rowSpan w) - 1) * of_int (rowSpacing p)
                         + of_int (rowSpacing p)),
               rwidth = spec_clamp (colSize (passData p ow))
                          (minWidth (sizeLimits (Array_sort widgetCmp (children p) ! i)))
                          (maxWidth (sizeLimits (Array_sort widgetCmp (children p) ! i))),
               rheight = spec_clamp
                          (of_int (rowSpan (Array_sort widgetCmp (children p) ! i))
                             * rowSize (passData p ow)
                           + (of_int (rowSpan (Array_sort widgetCmp (children p) ! i)) - 1)
                             * of_int (rowSpacing p))
                          (minHeight (sizeLimits (Array_sort widgetCmp (children p) ! i)))
                          (maxHeight (sizeLimits (Array_sort widgetCmp (children p) ! i)))\<rparr>) \<and>
         ry (snd (fst (layoutEffects p ow oh) ! 0)) = paddingTop (boxSizing p) \<and>
         (\<forall>i. Suc i < length (children p) \<longrightarrow>
            ry (snd (fst (layoutEffects p ow oh) ! Suc i))
              = ry (snd (fst (layoutEffects p ow oh) ! i))
                + (of_int (rowSpan (fst (fst (layoutEffects p ow oh) ! i))) * rowSize (passData p ow)
                   + (of_int (rowSpan (fst (fst (layoutEffects p ow oh) ! i))) - 1)
                     * of_int (rowSpacing p))
                + of_int (rowSpacing p)) \<and>
         (\<forall>cs. map (\<lambda>w. (rowSpan w, sizeLimits w)) (Array_sort widgetCmp cs)
                = map (\<lambda>w. (rowSpan w, sizeLimits w)) (Array_sort widgetCmp (children p))
              \<longrightarrow> map snd (fst (layoutEffects (p\<lparr>children := cs\<rparr>) ow oh))
                    = map snd (fst (layoutEffects p ow oh)))"
proof -
  let ?d = "passData p ow"
  let ?top = "paddingTop (boxSizing p)"
  let ?ws = "Array_sort widgetCmp (children p)"
  let ?E = "fst (layoutEffects p ow oh)"
  have n: "length ?ws = length (children p)"
    by (rule length_Array_sort)
  have "layoutEffects p ow oh =
    (fst (singleColLoop p ?d ?top ?ws), Some (snd (singleColLoop p ?d ?top ?ws)))"
    using assms by (rule layoutEffects_single)
  then have calls: "?E = fst (singleColLoop p ?d ?top ?ws)"
    by simp
  have order: "map fst ?E = ?ws"
    by (simp add: calls singleColLoop_widgets)
  have srt: "sorted_wrt rowColumnLe (map fst ?E)"
    by (simp add: order sorted_Array_sort)
  have perm: "mset (map fst ?E) = mset (children p)"
    by (simp add: order mset_Array_sort)
  have xs: "\<forall>c\<in>set ?E. rx (snd c) = paddingLeft (boxSizing p)"
    unfolding calls by (rule singleColLoop_rx)
  have ys: "sorted (map (\<lambda>c. ry (snd c)) ?E)"
    if h: "0 \<le> minRowSize p \<and> 0 \<le> rowSpacing p \<and> (\<forall>w\<in>set (children p). 1 \<le> rowSpan w)"
  proof -
    have "set ?ws = set (children p)"
      using mset_Array_sort [of widgetCmp "children p", THEN arg_cong, of set_mset] by simp
    with h assms(2) have "\<forall>w\<in>set ?ws. 0 \<le> slotHeight p ?d w + of_int (rowSpacing p)"
      by (simp add: slotHeight_nonneg singleCol_rowSize)
    then show ?thesis
      unfolding calls by (rule singleColLoop_sorted)
  qed
  have ex: "map (\<lambda>c. (row (fst c), column (fst c))) ?E = [(0, 1), (0, 5), (1, 0)]"
    if h: "map (\<lambda>w. (row w, column w)) (children p) = [(1, 0), (0, 5), (0, 1)]"
  proof -
    have "map (\<lambda>c. (row (fst c), column (fst c))) ?E = map (\<lambda>w. (row w, column w)) (map fst ?E)"
      by (simp add: comp_def)
    also have "\<dots> = [(0, 1), (0, 5), (1, 0)]"
      unfolding order using h by (rule Array_sort_three)
    finally show ?thesis .
  qed
  have len: "length ?E = length (children p)"
    by (simp add: calls singleColLoop_length n)
  have nth: "?E ! i =
     (?ws ! i,
      \<lparr>rx = paddingLeft (boxSizing p),
       ry = ?top + (\<Sum>w\<leftarrow>take i ?ws. slotHeight p ?d w + of_int (rowSpacing p)),
       rwidth = spec_clamp (colSize ?d) (minWidth (sizeLimits (?ws ! i))) (maxWidth (sizeLimits (?ws ! i))),
       rheight = spec_clamp (slotHeight p ?d (?ws ! i))
                   (minHeight (sizeLimits (?ws ! i))) (maxHeight (sizeLimits (?ws ! i)))\<rparr>)"
    if "i < length (children p)" for i
    unfolding calls using that n by (intro singleColLoop_nth) simp
  have rect: "snd (?E ! i) =
              \<lparr>rx = paddingLeft (boxSizing p),
               ry = ?top + (\<Sum>w\<leftarrow>take i ?ws.
                         of_int (rowSpan w) * rowSize ?d
                         + (of_int (rowSpan w) - 1) * of_int (rowSpacing p)
                         + of_int (rowSpacing p)),
               rwidth = spec_clamp (colSize ?d)
                          (minWidth (sizeLimits (?ws ! i))) (maxWidth (sizeLimits (?ws ! i))),
               rheight = spec_clamp
                          (of_int (rowSpan (?ws ! i)) * rowSize ?d
                           + (of_int (rowSpan (?ws ! i)) - 1) * of_int (rowSpacing p))
                          (minHeight (sizeLimits (?ws ! i)))
                          (maxHeight (sizeLimits (?ws ! i)))\<rparr>"
    if "i < length (children p)" for i
    using nth [OF that] by (simp add: slotHeight_def)
  have pos: "0 < length (children p)"
    using assms(1) by simp
  have first: "ry (snd (?E ! 0)) = ?top"
    using nth [OF pos] by simp
  have nxt: "ry (snd (?E ! Suc i))
              = ry (snd (?E ! i))
                + (of_int (rowSpan (fst (?E ! i))) * rowSize ?d
                   + (of_int (rowSpan (fst (?E ! i))) - 1) * of_int (rowSpacing p))
                + of_int (rowSpacing p)"
    if s: "Suc i < length (children p)" for i
  proof -
    from s have i: "i < length (children p)" by simp
    from i n have "take (Suc i) ?ws = take i ?ws @ [?ws ! i]"
      by (simp add: take_Suc_conv_app_nth)
    then show ?thesis
      by (simp add: nth [OF s] nth [OF i] slotHeight_def)
  qed
  have key: "map snd (fst (layoutEffects (p\<lparr>children := cs\<rparr>) ow oh)) = map snd ?E"
    if h: "map (\<lambda>w. (rowSpan w, sizeLimits w)) (Array_sort widgetCmp cs)
                = map (\<lambda>w. (rowSpan w, sizeLimits w)) ?ws" for cs
  proof -
    from h have "length (Array_sort widgetCmp cs) = length ?ws"
      by (rule map_eq_imp_length_eq)
    with n assms(1) have ne: "cs \<noteq> []"
      by (auto simp: length_Array_sort)
    have "layoutEffects (p\<lparr>children := cs\<rparr>) ow oh =
      (fst (singleColLoop (p\<lparr>children := cs\<rparr>) (passData (p\<lparr>children := cs\<rparr>) ow)
              (paddingTop (boxSizing (p\<lparr>children := cs\<rparr>)))
              (Array_sort widgetCmp (children (p\<lparr>children := cs\<rparr>)))),
       Some (snd (singleColLoop (p\<lparr>children := cs\<rparr>) (passData (p\<lparr>children := cs\<rparr>) ow)
              (paddingTop (boxSizing (p\<lparr>children := cs\<rparr>)))
              (Array_sort widgetCmp (children (p\<lparr>children := cs\<rparr>))))))"
      using ne assms(2) by (intro layoutEffects_single) (simp_all add: passData_children)
    then have "fst (layoutEffects (p\<lparr>children := cs\<rparr>) ow oh)
        = fst (singleColLoop p ?d ?top (Array_sort widgetCmp cs))"
      by (simp add: passData_children singleColLoop_children)
    then show ?thesis
      unfolding calls using singleColLoop_rects [OF h, of p ?d ?top] by simp
  qed
  from order srt perm xs ys ex len rect first nxt key show ?thesis
    by blast
qed

lemma ToInt32_0_1: "ToInt32 0 = 0" "ToInt32 1 = 1"
  by (simp_all add: ToInt32_def truncToZero_def)

lemma stackPanel_children:
  "children stackPanel =
     [(defaultWidget 0)\<lparr>row := 1\<rparr>, (defaultWidget 1)\<lparr>column := 5\<rparr>, (defaultWidget 2)\<lparr>column := 1\<rparr>]"
  by (simp add: stackPanel_def setRow_def setColumn_def row_coerce_def column_coerce_def
      ToInt32_small ToInt32_0_1 defaultWidget_def)

lemma stackPanel_data:
  "singleCol (passData stackPanel 400)" "colSize (passData stackPanel 400) = 400"
  "rowSize (passData stackPanel 400) = 50"
  by (simp_all add: passData_def stackPanel_def defaultPanel_def noBox_def layoutData_def js_eval)

lemma shiftedPanel_spans:
  "map (\<lambda>w. (rowSpan w, sizeLimits w)) (Array_sort widgetCmp (children shiftedPanel))
     = map (\<lambda>w. (rowSpan w, sizeLimits w)) (Array_sort widgetCmp (children stackPanel))"
  by (simp add: stackPanel_children shiftedPanel_def defaultWidget_def widgetCmp_def
      getRow_def getColumn_def)

lemma stackPanel_effects:
  "map snd (fst (layoutEffects stackPanel 400 0)) =
     [\<lparr>rx = 0, ry = 0, rwidth = 400, rheight = 50\<rparr>,
      \<lparr>rx = 0, ry = 58, rwidth = 400, rheight = 50\<rparr>,
      \<lparr>rx = 0, ry = 116, rwidth = 400, rheight = 50\<rparr>]"
proof -
  have f: "rowSpacing stackPanel = 8" "boxSizing stackPanel = noBox"
    by (simp_all add: stackPanel_def defaultPanel_def)
  have s: "Array_sort widgetCmp (children stackPanel) =
     [(defaultWidget 2)\<lparr>column := 1\<rparr>, (defaultWidget 1)\<lparr>column := 5\<rparr>, (defaultWidget 0)\<lparr>row := 1\<rparr>]"
    by (simp add: stackPanel_children widgetCmp_def getRow_def getColumn_def defaultWidget_def)
  have "layoutEffects stackPanel 400 0 =
    (fst (singleColLoop stackPanel (passData stackPanel 400) (paddingTop (boxSizing stackPanel))
            (Array_sort widgetCmp (children stackPanel))),
     Some (snd (singleColLoop stackPanel (passData stackPanel 400) (paddingTop (boxSizing stackPanel))
            (Array_sort widgetCmp (children stackPanel)))))"
    by (rule layoutEffects_single) (simp_all add: stackPanel_children stackPanel_data)
  then show ?thesis
    unfolding s
    by (simp add: f stackPanel_data noBox_def getRowSpan_def defaultWidget_def noLimits_def Let_def)
qed

theorem single_column_order_witness:
  "children stackPanel \<noteq> [] \<and> singleCol (passData stackPanel 400) \<and>
   0 \<le> minRowSize stackPanel \<and> 0 \<le> rowSpacing stackPanel \<and>
   map rowSpan (children stackPanel) = [1, 1, 1] \<and>
   map (\<lambda>w. (row w, column w)) (children stackPanel) = [(1, 0), (0, 5), (0, 1)] \<and>
   map (\<lambda>c. (row (fst c), column (fst c))) (fst (layoutEffects stackPanel 400 0))
     = [(0, 1), (0, 5), (1, 0)] \<and>
   map (\<lambda>c. wid (fst c)) (fst (layoutEffects stackPanel 400 0)) = [2, 1, 0] \<and>
   sorted (map (\<lambda>c. ry (snd c)) (fst (layoutEffects stackPanel 400 0))) \<and>
   map (\<lambda>c. ry (snd c)) (fst (layoutEffects stackPanel 400 0)) = [0, 58, 116] \<and>
   map (\<lambda>w. (rowSpan w, sizeLimits w)) (Array_sort widgetCmp (children shiftedPanel))
     = map (\<lambda>w. (rowSpan w, sizeLimits w)) (Array_sort widgetCmp (children stackPanel)) \<and>
   map snd (fst (layoutEffects (stackPanel\<lparr>children := children shiftedPanel\<rparr>) 400 0))
     = [\<lparr>rx = 0, ry = 0, rwidth = 400, rheight = 50\<rparr>,
        \<lparr>rx = 0, ry = 58, rwidth = 400, rheight = 50\<rparr>,
        \<lparr>rx = 0, ry = 116, rwidth = 400, rheight = 50\<rparr>]"
proof -
  have c: "children stackPanel \<noteq> []"
    by (simp add: stackPanel_def)
  note t = single_column_order [OF c stackPanel_data(1), of 0]
  have v: "0 \<le> minRowSize stackPanel \<and> 0 \<le> rowSpacing stackPanel \<and>
      (\<forall>w\<in>set (children stackPanel). 1 \<le> rowSpan w)"
    by (simp add: stackPanel_children) (simp add: stackPanel_def defaultPanel_def defaultWidget_def)
  have k: "map (\<lambda>w. (row w, column w)) (children stackPanel) = [(1, 0), (0, 5), (0, 1)]"
    by (simp add: stackPanel_children defaultWidget_def)
  have ids: "map wid (Array_sort widgetCmp (children stackPanel)) = [2, 1, 0]"
    by (simp add: stackPanel_children defaultWidget_def widgetCmp_def getRow_def getColumn_def)
  have "map (\<lambda>c. wid (fst c)) (fst (layoutEffects stackPanel 400 0))
      = map wid (map fst (fst (layoutEffects stackPanel 400 0)))"
    by (simp add: comp_def)
  also from t have "\<dots> = map wid (Array_sort widgetCmp (children stackPanel))"
    by simp
  finally have w: "map (\<lambda>c. wid (fst c)) (fst (layoutEffects stackPanel 400 0)) = [2, 1, 0]"
    using ids by simp
  have spans: "map rowSpan (children stackPanel) = [1, 1, 1]"
    by (simp add: stackPanel_children defaultWidget_def)
  from t v have srt: "sorted (map (\<lambda>c. ry (snd c)) (fst (layoutEffects stackPanel 400 0)))"
    by blast
  from t k have ord: "map (\<lambda>c. (row (fst c), column (fst c))) (fst (layoutEffects stackPanel 400 0))
     = [(0, 1), (0, 5), (1, 0)]"
    by blast
  have "map (\<lambda>c. ry (snd c)) (fst (layoutEffects stackPanel 400 0))
      = map ry (map snd (fst (layoutEffects stackPanel 400 0)))"
    by (simp add: comp_def)
  then have ys: "map (\<lambda>c. ry (snd c)) (fst (layoutEffects stackPanel 400 0)) = [0, 58, 116]"
    by (simp add: stackPanel_effects)
  from t shiftedPanel_spans
  have "map snd (fst (layoutEffects (stackPanel\<lparr>children := children shiftedPanel\<rparr>) 400 0))
      = map snd (fst (layoutEffects stackPanel 400 0))"
    by blast
  then have sh: "map snd (fst (layoutEffects (stackPanel\<lparr>children := children shiftedPanel\<rparr>) 400 0))
     = [\<lparr>rx = 0, ry = 0, rwidth = 400, rheight = 50\<rparr>,
        \<lparr>rx = 0, ry = 58, rwidth = 400, rheight = 50\<rparr>,
        \<lparr>rx = 0, ry = 116, rwidth = 400, rheight = 50\<rparr>]"
    by (simp only: stackPanel_effects)
  from c stackPanel_data(1) v k spans w srt ord ys shiftedPanel_spans sh show ?thesis
    by blast
qed

lemma sum_list_slots:
  "(\<Sum>w\<leftarrow>ws. slotHeight p d w + of_int (rowSpacing p))
     = (\<Sum>w\<leftarrow>ws. slotHeight p d w) + of_nat (length ws) * of_int (rowSpacing p)"
  by (induction ws) (simp_all add: algebra_simps)

text \<open>
  C6, as amended. In single-column mode with at least one item, the height written to
  the sizer is the final value of the cursor, and the cursor has advanced by the slot
  height plus the row spacing after every item, the last one included: the height is the
  top padding plus the sum over the items of
  \<open>rowSpan * rowSize + (rowSpan - 1) * rowSpacing\<close> plus \<open>n * rowSpacing\<close>.
\<close>

theorem single_column_extent:
  assumes "children p \<noteq> []" and "singleCol (passData p ow)"
  shows "snd (layoutEffects p ow oh)
           = Some (snd (singleColLoop p (passData p ow) (paddingTop (boxSizing p))
                          (Array_sort widgetCmp (children p)))) \<and>
         snd (layoutEffects p ow oh)
           = Some (paddingTop (boxSizing p)
                   + (\<Sum>w\<leftarrow>children p. of_int (rowSpan w) * rowSize (passData p ow)
                                       + (of_int (rowSpan w) - 1) * of_int (rowSpacing p))
                   + of_nat (length (children p)) * of_int (rowSpacing p))"
proof -
  let ?d = "passData p ow"
  let ?ws = "Array_sort widgetCmp (children p)"
  have "layoutEffects p ow oh =
    (fst (singleColLoop p ?d (paddingTop (boxSizing p)) ?ws),
     Some (snd (singleColLoop p ?d (paddingTop (boxSizing p)) ?ws)))"
    using assms by (rule layoutEffects_single)
  then have cursor: "snd (layoutEffects p ow oh)
      = Some (snd (singleColLoop p ?d (paddingTop (boxSizing p)) ?ws))"
    by simp
  have "snd (singleColLoop p ?d (paddingTop (boxSizing p)) ?ws)
      = paddingTop (boxSizing p) + (\<Sum>w\<leftarrow>?ws. slotHeight p ?d w)
        + of_nat (length ?ws) * of_int (rowSpacing p)"
    by (simp add: singleColLoop_cursor sum_list_slots)
  also have "\<dots> = paddingTop (boxSizing p) + (\<Sum>w\<leftarrow>children p. slotHeight p ?d w)
        + of_nat (length (children p)) * of_int (rowSpacing p)"
    by (simp add: sum_list_Array_sort length_Array_sort)
  finally have "snd (singleColLoop p ?d (paddingTop (boxSizing p)) ?ws)
      = paddingTop (boxSizing p)
        + (\<Sum>w\<leftarrow>children p. of_int (rowSpan w) * rowSize ?d
                             + (of_int (rowSpan w) - 1) * of_int (rowSpacing p))
        + of_nat (length (children p)) * of_int (rowSpacing p)"
    by (simp add: slotHeight_def)
  with cursor show ?thesis
    by simp
qed

lemma onePanel_data:
  "singleCol (passData onePanel 400)" "colSize (passData onePanel 400) = 400"
  "rowSize (passData onePanel 400) = 50"
  by (simp_all add: passData_def onePanel_def defaultPanel_def noBox_def layoutData_def js_eval)

theorem single_column_extent_witness:
  "children onePanel \<noteq> [] \<and> singleCol (passData onePanel 400) \<and>
   snd (layoutEffects onePanel 400 0) = Some 58"
proof -
  have c: "children onePanel \<noteq> []"
    by (simp add: onePanel_def)
  have f: "children onePanel = [defaultWidget 0]" "rowSpacing onePanel = 8"
    "paddingTop (boxSizing onePanel) = 0" "rowSpan (defaultWidget 0) = 1"
    by (simp_all add: onePanel_def defaultPanel_def noBox_def defaultWidget_def)
  from single_column_extent [OF c onePanel_data(1), of 0, THEN conjunct2]
  have "snd (layoutEffects onePanel 400 0) = Some 58"
    by (simp add: f onePanel_data)
  with c onePanel_data(1) show ?thesis
    by simp
qed

text \<open>
  C6, as stated, fails: with one default item in a panel 400 wide (row size 50, row
  spacing 8, no padding) the sizer is given 58, where the formula without the trailing
  spacing gives 50.
\<close>

theorem single_column_extent_counterexample:
  "children onePanel \<noteq> [] \<and> singleCol (passData onePanel 400) \<and>
   snd (layoutEffects onePanel 400 0) = Some 58 \<and>
   paddingTop (boxSizing onePanel)
     + (\<Sum>w\<leftarrow>children onePanel. of_int (rowSpan w) * rowSize (passData onePanel 400)
                                 + (of_int (rowSpan w) - 1) * of_int (rowSpacing onePanel))
     + (of_nat (length (children onePanel)) - 1) * of_int (rowSpacing onePanel) = 50"
proof -
  have f: "children onePanel = [defaultWidget 0]" "rowSpacing onePanel = 8"
    "boxSizing onePanel = noBox" "rowSpan (defaultWidget 0) = 1"
    "sizeLimits (defaultWidget 0) = noLimits"
    by (simp_all add: onePanel_def defaultPanel_def defaultWidget_def)
  have "layoutEffects onePanel 400 0 =
    (fst (singleColLoop onePanel (passData onePanel 400) (paddingTop (boxSizing onePanel))
            (Array_sort widgetCmp (children onePanel))),
     Some (snd (singleColLoop onePanel (passData onePanel 400) (paddingTop (boxSizing onePanel))
            (Array_sort widgetCmp (children onePanel)))))"
    by (rule layoutEffects_single) (simp_all add: f onePanel_data)
  then have "snd (layoutEffects onePanel 400 0) = Some 58"
    by (simp add: f onePanel_data noBox_def getRowSpan_def)
  then show ?thesis
    using onePanel_data(1) by (simp add: f onePanel_data noBox_def)
qed

lemma slotHeight_relimit: "slotHeight p d (relimit f w) = slotHeight p d w"
  by (simp add: slotHeight_def relimit_def)

lemma slotHeight_children: "slotHeight (p\<lparr>children := cs\<rparr>) d w = slotHeight p d w"
  by (simp add: slotHeight_def)

lemma slot_advance:
  "slotHeight p d w + of_int (rowSpacing p) = of_int (rowSpan w) * (rowSize d + of_int (rowSpacing p))"
  by (simp add: slotHeight_def algebra_simps)

text \<open>
  C10. In single-column mode the cursor advances by the slot height plus the row spacing,
  not by the clamped height of the rectangle: the i-th item of the sorted order is placed
  at the left padding and at the top padding plus the sum, over the items before it, of
  \<open>rowSpan * (rowSize + rowSpacing)\<close>. Giving the items other size limits (\<open>relimit\<close>)
  changes neither the mode, nor the order, nor any position, nor the sizer height; an
  item whose own limits stay the same keeps its whole rectangle. So an item whose
  minimum height exceeds its slot reaches over the items below it.
\<close>

theorem single_column_positions:
  assumes "children p \<noteq> []" and "singleCol (passData p ow)"
  shows "(\<forall>i<length (children p).
            rx (snd (fst (layoutEffects p ow oh) ! i)) = paddingLeft (boxSizing p) \<and>
            ry (snd (fst (layoutEffects p ow oh) ! i))
              = paddingTop (boxSizing p)
                + (\<Sum>w\<leftarrow>take i (Array_sort widgetCmp (children p)).
                     of_int (rowSpan w) * (rowSize (passData p ow) + of_int (rowSpacing p)))) \<and>
         singleCol (passData (p\<lparr>children := map (relimit f) (children p)\<rparr>) ow) \<and>
         map (\<lambda>c. (wid (fst c), rx (snd c), ry (snd c)))
             (fst (layoutEffects (p\<lparr>children := map (relimit f) (children p)\<rparr>) ow oh))
           = map (\<lambda>c. (wid (fst c), rx (snd c), ry (snd c))) (fst (layoutEffects p ow oh)) \<and>
         snd (layoutEffects (p\<lparr>children := map (relimit f) (children p)\<rparr>) ow oh)
           = snd (layoutEffects p ow oh) \<and>
         (\<forall>i<length (children p).
            f (fst (fst (layoutEffects p ow oh) ! i)) = sizeLimits (fst (fst (layoutEffects p ow oh) ! i))
              \<longrightarrow> snd (fst (layoutEffects (p\<lparr>children := map (relimit f) (children p)\<rparr>) ow oh) ! i)
                    = snd (fst (layoutEffects p ow oh) ! i))"
proof -
  let ?d = "passData p ow"
  let ?top = "paddingTop (boxSizing p)"
  let ?ws = "Array_sort widgetCmp (children p)"
  let ?p' = "p\<lparr>children := map (relimit f) (children p)\<rparr>"
  let ?E = "fst (layoutEffects p ow oh)"
  let ?E' = "fst (layoutEffects ?p' ow oh)"
  have n: "length ?ws = length (children p)"
    by (rule length_Array_sort)
  have "layoutEffects p ow oh =
    (fst (singleColLoop p ?d ?top ?ws), Some (snd (singleColLoop p ?d ?top ?ws)))"
    using assms by (rule layoutEffects_single)
  then have E: "?E = fst (singleColLoop p ?d ?top ?ws)"
    and X: "snd (layoutEffects p ow oh) = Some (snd (singleColLoop p ?d ?top ?ws))"
    by simp_all
  have mode': "singleCol (passData ?p' ow)"
    using assms(2) by (simp add: passData_children)
  have "layoutEffects ?p' ow oh =
    (fst (singleColLoop ?p' (passData ?p' ow) (paddingTop (boxSizing ?p'))
            (Array_sort widgetCmp (children ?p'))),
     Some (snd (singleColLoop ?p' (passData ?p' ow) (paddingTop (boxSizing ?p'))
            (Array_sort widgetCmp (children ?p')))))"
    using assms(1) mode' by (intro layoutEffects_single) simp_all
  then have E': "?E' = fst (singleColLoop p ?d ?top (map (relimit f) ?ws))"
    and X': "snd (layoutEffects ?p' ow oh) = Some (snd (singleColLoop p ?d ?top (map (relimit f) ?ws)))"
    by (simp_all add: passData_children singleColLoop_children Array_sort_relimit)
  have len: "length ?E = length (children p)" "length ?E' = length (children p)"
    by (simp_all add: E E' singleColLoop_length n)
  have nth: "?E ! i =
     (?ws ! i,
      \<lparr>rx = paddingLeft (boxSizing p),
       ry = ?top + (\<Sum>w\<leftarrow>take i ?ws. slotHeight p ?d w + of_int (rowSpacing p)),
       rwidth = spec_clamp (colSize ?d) (minWidth (sizeLimits (?ws ! i))) (maxWidth (sizeLimits (?ws ! i))),
       rheight = spec_clamp (slotHeight p ?d (?ws ! i))
                   (minHeight (sizeLimits (?ws ! i))) (maxHeight (sizeLimits (?ws ! i)))\<rparr>)"
    if "i < length (children p)" for i
    unfolding E using that n by (intro singleColLoop_nth) simp
  have nth': "?E' ! i =
     (relimit f (?ws ! i),
      \<lparr>rx = paddingLeft (boxSizing p),
       ry = ?top + (\<Sum>w\<leftarrow>take i ?ws. slotHeight p ?d w + of_int (rowSpacing p)),
       rwidth = spec_clamp (colSize ?d) (minWidth (f (?ws ! i))) (maxWidth (f (?ws ! i))),
       rheight = spec_clamp (slotHeight p ?d (?ws ! i))
                   (minHeight (f (?ws ! i))) (maxHeight (f (?ws ! i)))\<rparr>)"
    if "i < length (children p)" for i
  proof -
    from that n have i: "i < length (map (relimit f) ?ws)" by simp
    have "(\<Sum>w\<leftarrow>take i (map (relimit f) ?ws). slotHeight p ?d w + of_int (rowSpacing p))
        = (\<Sum>w\<leftarrow>take i ?ws. slotHeight p ?d w + of_int (rowSpacing p))"
      by (simp add: take_map comp_def slotHeight_relimit)
    moreover have "sizeLimits (relimit f (?ws ! i)) = f (?ws ! i)"
      by (simp add: relimit_def)
    ultimately show ?thesis
      unfolding E' using that n
      by (simp add: singleColLoop_nth [OF i] slotHeight_relimit)
  qed
  have pos: "rx (snd (?E ! i)) = paddingLeft (boxSizing p) \<and>
            ry (snd (?E ! i))
              = ?top + (\<Sum>w\<leftarrow>take i ?ws. of_int (rowSpan w) * (rowSize ?d + of_int (rowSpacing p)))"
    if "i < length (children p)" for i
    using nth [OF that] by (simp add: slot_advance)
  have same: "map (\<lambda>c. (wid (fst c), rx (snd c), ry (snd c))) ?E'
           = map (\<lambda>c. (wid (fst c), rx (snd c), ry (snd c))) ?E"
    by (rule nth_equalityI) (simp_all add: len nth nth' relimit_def)
  have ext: "snd (layoutEffects ?p' ow oh) = snd (layoutEffects p ow oh)"
    by (simp add: X X' singleColLoop_cursor comp_def slotHeight_relimit)
  have own: "snd (?E' ! i) = snd (?E ! i)"
    if "i < length (children p)" "f (fst (?E ! i)) = sizeLimits (fst (?E ! i))" for i
    using that(2) by (simp add: nth [OF that(1)] nth' [OF that(1)])
  from pos mode' same ext own show ?thesis
    by blast
qed


lemma twoPanel_children:
  "children twoPanel = [defaultWidget 0, (defaultWidget 1)\<lparr>row := 1\<rparr>]"
  by (simp add: twoPanel_def setRow_def row_coerce_def ToInt32_0_1)

lemma twoPanel_data:
  "singleCol (passData twoPanel 400)" "colSize (passData twoPanel 400) = 400"
  "rowSize (passData twoPanel 400) = 50"
  by (simp_all add: passData_def twoPanel_def defaultPanel_def noBox_def layoutData_def js_eval)

lemma twoPanel_effects:
  "fst (layoutEffects twoPanel 400 0) =
     [(defaultWidget 0, \<lparr>rx = 0, ry = 0, rwidth = 400, rheight = 50\<rparr>),
      ((defaultWidget 1)\<lparr>row := 1\<rparr>, \<lparr>rx = 0, ry = 58, rwidth = 400, rheight = 50\<rparr>)]"
proof -
  have f: "rowSpacing twoPanel = 8" "boxSizing twoPanel = noBox"
    by (simp_all add: twoPanel_def defaultPanel_def)
  have s: "Array_sort widgetCmp (children twoPanel) = [defaultWidget 0, (defaultWidget 1)\<lparr>row := 1\<rparr>]"
    by (simp add: twoPanel_children widgetCmp_def getRow_def getColumn_def defaultWidget_def)
  have "layoutEffects twoPanel 400 0 =
    (fst (singleColLoop twoPanel (passData twoPanel 400) (paddingTop (boxSizing twoPanel))
            (Array_sort widgetCmp (children twoPanel))),
     Some (snd (singleColLoop twoPanel (passData twoPanel 400) (paddingTop (boxSizing twoPanel))
            (Array_sort widgetCmp (children twoPanel)))))"
    by (rule layoutEffects_single) (simp_all add: twoPanel_children twoPanel_data)
  then show ?thesis
    unfolding s
    by (simp add: f twoPanel_data noBox_def getRowSpan_def defaultWidget_def noLimits_def Let_def)
qed

lemma twoPanel_relimit_heights:
  "map (\<lambda>c. rheight (snd c))
     (fst (layoutEffects (twoPanel\<lparr>children := map (relimit tallLimits) (children twoPanel)\<rparr>) 400 0))
   = [200, 50]"
proof -
  let ?p = "twoPanel\<lparr>children := map (relimit tallLimits) (children twoPanel)\<rparr>"
  let ?a = "(defaultWidget 0)\<lparr>sizeLimits := noLimits\<lparr>minHeight := 200\<rparr>\<rparr>"
  let ?b = "(defaultWidget 1)\<lparr>row := 1\<rparr>"
  have f: "rowSpacing ?p = 8" "boxSizing ?p = noBox"
    by (simp_all add: twoPanel_def defaultPanel_def)
  have c: "children ?p = [?a, ?b]"
    by (simp add: twoPanel_children relimit_def tallLimits_def defaultWidget_def)
  have s: "Array_sort widgetCmp (children ?p) = [?a, ?b]"
    unfolding c by (simp add: widgetCmp_def getRow_def getColumn_def defaultWidget_def)
  have d: "singleCol (passData ?p 400)" "colSize (passData ?p 400) = 400"
    "rowSize (passData ?p 400) = 50"
    by (simp_all add: passData_children twoPanel_data)
  have "layoutEffects ?p 400 0 =
    (fst (singleColLoop ?p (passData ?p 400) (paddingTop (boxSizing ?p))
            (Array_sort widgetCmp (children ?p))),
     Some (snd (singleColLoop ?p (passData ?p 400) (paddingTop (boxSizing ?p))
            (Array_sort widgetCmp (children ?p)))))"
    using d(1) by (intro layoutEffects_single) (simp_all add: twoPanel_children)
  then show ?thesis
    unfolding s
    by (simp add: f d noBox_def getRowSpan_def defaultWidget_def noLimits_def Let_def)
qed

theorem single_column_positions_witness:
  "children twoPanel \<noteq> [] \<and> singleCol (passData twoPanel 400) \<and>
   map (\<lambda>c. (wid (fst c), rx (snd c), ry (snd c)))
     (fst (layoutEffects (twoPanel\<lparr>children := map (relimit tallLimits) (children twoPanel)\<rparr>) 400 0))
     = [(0, 0, 0), (1, 0, 58)] \<and>
   map (\<lambda>c. rheight (snd c))
     (fst (layoutEffects (twoPanel\<lparr>children := map (relimit tallLimits) (children twoPanel)\<rparr>) 400 0))
     = [200, 50] \<and>
   map (\<lambda>c. rheight (snd c)) (fst (layoutEffects twoPanel 400 0)) = [50, 50] \<and>
   1 < length (children twoPanel) \<and>
   tallLimits (fst (fst (layoutEffects twoPanel 400 0) ! 1))
     = sizeLimits (fst (fst (layoutEffects twoPanel 400 0) ! 1)) \<and>
   snd (fst (layoutEffects (twoPanel\<lparr>children := map (relimit tallLimits) (children twoPanel)\<rparr>) 400 0) ! 1)
     = \<lparr>rx = 0, ry = 58, rwidth = 400, rheight = 50\<rparr>"
proof -
  have c: "children twoPanel \<noteq> []"
    by (simp add: twoPanel_children)
  note t = single_column_positions [OF c twoPanel_data(1), of 0 tallLimits]
  have n: "1 < length (children twoPanel)"
    by (simp add: twoPanel_children)
  have same: "tallLimits (fst (fst (layoutEffects twoPanel 400 0) ! 1))
     = sizeLimits (fst (fst (layoutEffects twoPanel 400 0) ! 1))"
    by (simp add: twoPanel_effects tallLimits_def defaultWidget_def)
  from t have "map (\<lambda>c. (wid (fst c), rx (snd c), ry (snd c)))
     (fst (layoutEffects (twoPanel\<lparr>children := map (relimit tallLimits) (children twoPanel)\<rparr>) 400 0))
     = map (\<lambda>c. (wid (fst c), rx (snd c), ry (snd c))) (fst (layoutEffects twoPanel 400 0))"
    by blast
  then have pos: "map (\<lambda>c. (wid (fst c), rx (snd c), ry (snd c)))
     (fst (layoutEffects (twoPanel\<lparr>children := map (relimit tallLimits) (children twoPanel)\<rparr>) 400 0))
     = [(0, 0, 0), (1, 0, 58)]"
    by (simp add: twoPanel_effects defaultWidget_def)
  from t n same have "snd (fst (layoutEffects (twoPanel\<lparr>children := map (relimit tallLimits) (children twoPanel)\<rparr>) 400 0) ! 1)
     = snd (fst (layoutEffects twoPanel 400 0) ! 1)"
    by blast
  then have own: "snd (fst (layoutEffects (twoPanel\<lparr>children := map (relimit tallLimits) (children twoPanel)\<rparr>) 400 0) ! 1)
     = \<lparr>rx = 0, ry = 58, rwidth = 400, rheight = 50\<rparr>"
    by (simp add: twoPanel_effects)
  have "map (\<lambda>c. rheight (snd c)) (fst (layoutEffects twoPanel 400 0)) = [50, 50]"
    by (simp add: twoPanel_effects)
  with c twoPanel_data(1) twoPanel_relimit_heights pos n same own show ?thesis
    by blast
qed

subsection \<open>Determinism\<close>

lemma layoutData_outputs:
  "layoutData (p\<lparr>offsetGeometry := g, sizerHeight := s\<rparr>) w = layoutData p w"
  by (simp add: layoutData_def Let_def)

lemma gridCell_outputs:
  "gridCell (p\<lparr>offsetGeometry := g, sizerHeight := s\<rparr>) d w = gridCell p d w"
  by (simp add: gridCell_def Let_def)

lemma singleColLoop_outputs:
  "singleColLoop (p\<lparr>offsetGeometry := g, sizerHeight := s\<rparr>) d y ws = singleColLoop p d y ws"
  by (induction ws arbitrary: y) simp_all

lemma gridLoop_outputs:
  "gridLoop (p\<lparr>offsetGeometry := g, sizerHeight := s\<rparr>) d m ws = gridLoop p d m ws"
  by (induction ws arbitrary: m) (simp_all add: gridCell_outputs)

lemma layoutEffects_outputs:
  "layoutEffects (p\<lparr>offsetGeometry := g, sizerHeight := s\<rparr>) ow oh = layoutEffects p ow oh"
  by (simp add: layoutEffects_def layoutData_outputs singleColLoop_outputs gridLoop_outputs Let_def)

lemma fold_setOffsetGeometry:
  "fold (\<lambda>(widget, r). setOffsetGeometry widget r) calls g
     = g ++ map_of (rev (map (\<lambda>(widget, r). (wid widget, r)) calls))"
proof (induction calls arbitrary: g)
  case Nil
  then show ?case by simp
next
  case (Cons c calls)
  obtain w r where c: "c = (w, r)" by (cases c)
  let ?F = "\<lambda>(widget, r). setOffsetGeometry widget r"
  let ?M = "map_of (rev (map (\<lambda>(widget, r). (wid widget, r)) calls))"
  have step: "g(wid w \<mapsto> r) ++ m = g ++ ([wid w \<mapsto> r] ++ m)" for m :: "nat \<rightharpoonup> rect"
    by (rule ext) (simp add: map_add_def split: option.splits)
  have "fold ?F (c # calls) g = fold ?F calls (g(wid w \<mapsto> r))"
    by (simp add: c setOffsetGeometry_def)
  also have "\<dots> = g(wid w \<mapsto> r) ++ ?M"
    by (rule Cons.IH)
  also have "\<dots> = g ++ ([wid w \<mapsto> r] ++ ?M)"
    by (rule step)
  also have "[wid w \<mapsto> r] ++ ?M = map_of (rev (map (\<lambda>(widget, r). (wid widget, r)) (c # calls)))"
    by (simp add: c)
  finally show ?case .
qed

lemma fold_setOffsetGeometry_twice:
  "fold (\<lambda>(widget, r). setOffsetGeometry widget r) calls
     (fold (\<lambda>(widget, r). setOffsetGeometry widget r) calls g)
   = fold (\<lambda>(widget, r). setOffsetGeometry widget r) calls g"
proof -
  have "(g ++ m) ++ m = g ++ m" for m :: "nat \<rightharpoonup> rect"
    by (rule ext) (simp add: map_add_def split: option.splits)
  then show ?thesis
    by (simp add: fold_setOffsetGeometry)
qed

lemma layoutEffects_order:
  "map fst (fst (layoutEffects p ow oh))
     = (if children p = [] then []
        else if singleCol (passData p ow) then Array_sort widgetCmp (children p)
        else children p)"
proof (cases "children p = []")
  case True
  then show ?thesis by (simp add: layoutEffects_def)
next
  case False
  show ?thesis
  proof (cases "singleCol (passData p ow)")
    case True
    with False show ?thesis
      by (simp add: layoutEffects_single singleColLoop_widgets)
  next
    case g: False
    with False show ?thesis
      by (simp add: layoutEffects_grid gridLoop_calls comp_def)
  qed
qed

text \<open>
  C9. A layout pass is determined by the configuration, the children with their
  placements and limits, and the offset size: its effects do not depend on the geometry
  and sizer height left by earlier passes, so a second pass over the same inputs makes
  the same calls with the same rectangles and writes the same sizer height, and leaves
  the panel as the first pass left it. The items are visited in the sorted
  (row, column) order in single-column mode and in container order in grid mode.
\<close>

theorem layout_deterministic:
  "layoutEffects (p\<lparr>offsetGeometry := g, sizerHeight := s\<rparr>) ow oh = layoutEffects p ow oh \<and>
   layoutEffects (layoutChildren p ow oh) ow oh = layoutEffects p ow oh \<and>
   layoutChildren (layoutChildren p ow oh) ow oh = layoutChildren p ow oh \<and>
   map fst (fst (layoutEffects p ow oh))
     = (if children p = [] then []
        else if singleCol (passData p ow) then Array_sort widgetCmp (children p)
        else children p)"
proof -
  obtain calls extent where e: "layoutEffects p ow oh = (calls, extent)"
    by (cases "layoutEffects p ow oh")
  let ?F = "\<lambda>(widget, r). setOffsetGeometry widget r"
  let ?g = "fold ?F calls (offsetGeometry p)"
  let ?s = "case extent of None \<Rightarrow> sizerHeight p | Some h \<Rightarrow> Some h"
  have once: "layoutChildren p ow oh = p\<lparr>offsetGeometry := ?g, sizerHeight := ?s\<rparr>"
    by (simp add: layoutChildren_def e)
  have again: "layoutEffects (layoutChildren p ow oh) ow oh = layoutEffects p ow oh"
    unfolding once by (rule layoutEffects_outputs)
  have "layoutChildren (layoutChildren p ow oh) ow oh
      = (layoutChildren p ow oh)\<lparr>offsetGeometry :=
             fold ?F calls (offsetGeometry (layoutChildren p ow oh)),
           sizerHeight := (case extent of None \<Rightarrow> sizerHeight (layoutChildren p ow oh)
                           | Some h \<Rightarrow> Some h)\<rparr>"
    unfolding layoutChildren_def [of "layoutChildren p ow oh"] again e by simp
  also have "\<dots> = layoutChildren p ow oh"
    by (cases extent) (simp_all add: once fold_setOffsetGeometry_twice)
  finally have twice: "layoutChildren (layoutChildren p ow oh) ow oh = layoutChildren p ow oh" .
  from layoutEffects_outputs again twice layoutEffects_order show ?thesis
    by blast
qed

subsection \<open>Coercion\<close>

lemma truncToZero_of_int: "truncToZero (of_int n) = n"
  by (simp add: truncToZero_def)

lemma wrap_int32:
  fixes n :: int
  assumes "- 2147483648 \<le> n" "n < 2147483648"
  shows "(let int32bit = n mod 2 ^ 32 in if 2 ^ 31 \<le> int32bit then int32bit - 2 ^ 32 else int32bit) = n"
proof (cases "0 \<le> n")
  case True
  with assms have "n mod 4294967296 = n" by simp
  with assms show ?thesis by (simp add: Let_def)
next
  case False
  with assms have "(n + 4294967296) mod 4294967296 = n + 4294967296"
    by (intro mod_pos_pos_trivial) simp_all
  then have "n mod 4294967296 = n + 4294967296"
    by simp
  with assms False show ?thesis by (simp add: Let_def)
qed

lemma truncToZero_range:
  assumes "- 2147483649 < v" "v < 2147483648"
  shows "- 2147483648 \<le> truncToZero v \<and> truncToZero v < 2147483648"
proof (cases "0 \<le> v")
  case True
  then have "truncToZero v = \<lfloor>v\<rfloor>" by (simp add: truncToZero_def)
  moreover have "\<lfloor>v\<rfloor> < 2147483648" using assms(2) by (simp add: floor_less_iff)
  moreover have "0 \<le> \<lfloor>v\<rfloor>" using True by simp
  ultimately show ?thesis by simp
next
  case False
  then have "truncToZero v = \<lceil>v\<rceil>" by (simp add: truncToZero_def)
  moreover have "- 2147483649 < \<lceil>v\<rceil>" using assms(1) by (simp add: less_ceiling_iff)
  moreover have "\<lceil>v\<rceil> \<le> 0" using False by (simp add: ceiling_le_iff)
  ultimately show ?thesis by simp
qed

lemma ToInt32_in_range:
  assumes "- 2147483649 < v" "v < 2147483648"
  shows "ToInt32 v = truncToZero v"
  unfolding ToInt32_def using truncToZero_range [OF assms] by (intro wrap_int32) simp_all

lemma ToInt32_bounds: "- 2147483648 \<le> ToInt32 v \<and> ToInt32 v < 2147483648"
proof -
  define m where "m = truncToZero v mod 4294967296"
  have "0 \<le> m" "m < 4294967296"
    by (simp_all add: m_def)
  moreover have "ToInt32 v = (if 2147483648 \<le> m then m - 4294967296 else m)"
    by (simp add: ToInt32_def Let_def m_def)
  ultimately show ?thesis
    by (simp split: if_splits)
qed

lemma ToInt32_of_int32:
  assumes "- 2147483648 \<le> n" "n < 2147483648"
  shows "ToInt32 (of_int n) = n"
  unfolding ToInt32_def truncToZero_of_int using assms by (rule wrap_int32)

lemma truncToZero_max:
  assumes "b = 0 \<or> b = 1"
  shows "max b (truncToZero v) = truncToZero (max (of_int b) v)"
proof (cases "of_int b \<le> v")
  case True
  with assms have "0 \<le> v" by auto
  with True have "b \<le> \<lfloor>v\<rfloor>" by (simp add: le_floor_iff)
  with True \<open>0 \<le> v\<close> show ?thesis
    by (simp add: truncToZero_def max_def)
next
  case False
  then have v: "v < of_int b" by simp
  have "truncToZero v \<le> b"
  proof (cases "0 \<le> v")
    case True
    then show ?thesis using v by (simp add: truncToZero_def floor_le_iff)
  next
    case neg: False
    then have "\<lceil>v\<rceil> \<le> 0" by (simp add: ceiling_le_iff)
    with neg assms show ?thesis by (auto simp: truncToZero_def)
  qed
  then have l: "max b (truncToZero v) = b"
    by simp
  from v have "max (of_int b) v = (of_int b :: real)"
    by simp
  then have "truncToZero (max (of_int b) v) = b"
    by (simp only: truncToZero_of_int)
  with l show ?thesis
    by simp
qed


lemma int_coerce_in_range:
  assumes "b = 0 \<or> b = 1" "- 2147483649 < v" "v < 2147483648"
  shows "max b (ToInt32 v) = truncToZero (max (of_int b) v)"
  by (simp only: ToInt32_in_range [OF assms(2) assms(3)] truncToZero_max [OF assms(1)])

lemma int_coerce_idem:
  assumes "b = 0 \<or> b = 1"
  shows "max b (ToInt32 (of_int (max b (ToInt32 v)))) = max b (ToInt32 v)"
proof -
  have "- 2147483648 \<le> max b (ToInt32 v)" "max b (ToInt32 v) < 2147483648"
    using assms ToInt32_bounds [of v] by auto
  then have "ToInt32 (of_int (max b (ToInt32 v))) = max b (ToInt32 v)"
    by (rule ToInt32_of_int32)
  then show ?thesis
    by simp
qed

lemma Math_max_limit_idem: "Math_max_limit 0 (Math_max_limit 0 l) = Math_max_limit 0 l"
  by (cases l) simp_all

text \<open>
  C8, as amended. For every panel, widget, field and written value, reading a field after
  setting it returns the field's coercion of the written value. The real-valued fields
  saturate at their lower bound 0 (and \<open>Infinity\<close> stays \<open>Infinity\<close>). For a written value
  whose truncation fits a signed 32-bit integer, the integer fields are the written value
  clamped to their lower bound and truncated toward zero. Every coercion is idempotent.
  Setting \<open>aspectRatio\<close> to -3 reads back 0, and setting \<open>rowSpan\<close> to 0.7 reads back 1.
\<close>

theorem coercion_round_trip:
  "(aspectRatio (set_aspectRatio v p) = aspectRatio_coerce v \<and>
    columnCount (set_columnCount v p) = columnCount_coerce v \<and>
    minRowSize (set_minRowSize v p) = minRowSize_coerce v \<and>
    minColumnSize (set_minColumnSize v p) = minColumnSize_coerce v \<and>
    maxRowSize (set_maxRowSize l p) = maxRowSize_coerce l \<and>
    maxColumnSize (set_maxColumnSize l p) = maxColumnSize_coerce l \<and>
    rowSpacing (set_rowSpacing v p) = rowSpacing_coerce v \<and>
    columnSpacing (set_columnSpacing v p) = columnSpacing_coerce v \<and>
    getRow (setRow w v) = row_coerce v \<and>
    getColumn (setColumn w v) = column_coerce v \<and>
    getRowSpan (setRowSpan w v) = rowSpan_coerce v \<and>
    getColumnSpan (setColumnSpan w v) = columnSpan_coerce v) \<and>
   (aspectRatio_coerce v = (if v < 0 then 0 else v) \<and>
    minRowSize_coerce v = (if v < 0 then 0 else v) \<and>
    minColumnSize_coerce v = (if v < 0 then 0 else v) \<and>
    maxRowSize_coerce Infinity = Infinity \<and>
    maxRowSize_coerce (Finite v) = Finite (if v < 0 then 0 else v) \<and>
    maxColumnSize_coerce Infinity = Infinity \<and>
    maxColumnSize_coerce (Finite v) = Finite (if v < 0 then 0 else v)) \<and>
   (- 2147483649 < v \<and> v < 2147483648 \<longrightarrow>
      columnCount_coerce v = truncToZero (max 1 v) \<and>
      rowSpacing_coerce v = truncToZero (max 0 v) \<and>
      columnSpacing_coerce v = truncToZero (max 0 v) \<and>
      row_coerce v = truncToZero (max 0 v) \<and>
      column_coerce v = truncToZero (max 0 v) \<and>
      rowSpan_coerce v = truncToZero (max 1 v) \<and>
      columnSpan_coerce v = truncToZero (max 1 v)) \<and>
   (aspectRatio_coerce (aspectRatio_coerce v) = aspectRatio_coerce v \<and>
    columnCount_coerce (of_int (columnCount_coerce v)) = columnCount_coerce v \<and>
    minRowSize_coerce (minRowSize_coerce v) = minRowSize_coerce v \<and>
    minColumnSize_coerce (minColumnSize_coerce v) = minColumnSize_coerce v \<and>
    maxRowSize_coerce (maxRowSize_coerce l) = maxRowSize_coerce l \<and>
    maxColumnSize_coerce (maxColumnSize_coerce l) = maxColumnSize_coerce l \<and>
    rowSpacing_coerce (of_int (rowSpacing_coerce v)) = rowSpacing_coerce v \<and>
    columnSpacing_coerce (of_int (columnSpacing_coerce v)) = columnSpacing_coerce v \<and>
    row_coerce (of_int (row_coerce v)) = row_coerce v \<and>
    column_coerce (of_int (column_coerce v)) = column_coerce v \<and>
    rowSpan_coerce (of_int (rowSpan_coerce v)) = rowSpan_coerce v \<and>
    columnSpan_coerce (of_int (columnSpan_coerce v)) = columnSpan_coerce v) \<and>
   aspectRatio (set_aspectRatio (- 3) p) = 0 \<and>
   getRowSpan (setRowSpan w (7 / 10)) = 1"
proof -
  have trips:
   "aspectRatio (set_aspectRatio v p) = aspectRatio_coerce v \<and>
    columnCount (set_columnCount v p) = columnCount_coerce v \<and>
    minRowSize (set_minRowSize v p) = minRowSize_coerce v \<and>
    minColumnSize (set_minColumnSize v p) = minColumnSize_coerce v \<and>
    maxRowSize (set_maxRowSize l p) = maxRowSize_coerce l \<and>
    maxColumnSize (set_maxColumnSize l p) = maxColumnSize_coerce l \<and>
    rowSpacing (set_rowSpacing v p) = rowSpacing_coerce v \<and>
    columnSpacing (set_columnSpacing v p) = columnSpacing_coerce v \<and>
    getRow (setRow w v) = row_coerce v \<and>
    getColumn (setColumn w v) = column_coerce v \<and>
    getRowSpan (setRowSpan w v) = rowSpan_coerce v \<and>
    getColumnSpan (setColumnSpan w v) = columnSpan_coerce v"
    by (simp add: set_aspectRatio_def set_columnCount_def set_minRowSize_def
        set_minColumnSize_def set_maxRowSize_def set_maxColumnSize_def set_rowSpacing_def
        set_columnSpacing_def setRow_def setColumn_def setRowSpan_def setColumnSpan_def
        getRow_def getColumn_def getRowSpan_def getColumnSpan_def)
  have reals:
   "aspectRatio_coerce v = (if v < 0 then 0 else v) \<and>
    minRowSize_coerce v = (if v < 0 then 0 else v) \<and>
    minColumnSize_coerce v = (if v < 0 then 0 else v) \<and>
    maxRowSize_coerce Infinity = Infinity \<and>
    maxRowSize_coerce (Finite v) = Finite (if v < 0 then 0 else v) \<and>
    maxColumnSize_coerce Infinity = Infinity \<and>
    maxColumnSize_coerce (Finite v) = Finite (if v < 0 then 0 else v)"
    by (simp add: aspectRatio_coerce_def minRowSize_coerce_def minColumnSize_coerce_def
        maxRowSize_coerce_def maxColumnSize_coerce_def max_def)
  have ints:
   "columnCount_coerce v = truncToZero (max 1 v) \<and>
    rowSpacing_coerce v = truncToZero (max 0 v) \<and>
    columnSpacing_coerce v = truncToZero (max 0 v) \<and>
    row_coerce v = truncToZero (max 0 v) \<and>
    column_coerce v = truncToZero (max 0 v) \<and>
    rowSpan_coerce v = truncToZero (max 1 v) \<and>
    columnSpan_coerce v = truncToZero (max 1 v)"
    if r: "- 2147483649 < v \<and> v < 2147483648"
  proof -
    from r have lo: "- 2147483649 < v" and hi: "v < 2147483648" by simp_all
    have z: "max 0 (ToInt32 v) = truncToZero (max 0 v)"
      using int_coerce_in_range [of 0 v, OF _ lo hi] by simp
    have o: "max 1 (ToInt32 v) = truncToZero (max 1 v)"
      using int_coerce_in_range [of 1 v, OF _ lo hi] by simp
    show ?thesis
      by (simp only: columnCount_coerce_def rowSpacing_coerce_def columnSpacing_coerce_def
          row_coerce_def column_coerce_def rowSpan_coerce_def columnSpan_coerce_def z o)
  qed
  have z: "max 0 (ToInt32 (of_int (max 0 (ToInt32 v)))) = max 0 (ToInt32 v)"
    by (rule int_coerce_idem) simp
  have o: "max 1 (ToInt32 (of_int (max 1 (ToInt32 v)))) = max 1 (ToInt32 v)"
    by (rule int_coerce_idem) simp
  have idem:
   "aspectRatio_coerce (aspectRatio_coerce v) = aspectRatio_coerce v \<and>
    columnCount_coerce (of_int (columnCount_coerce v)) = columnCount_coerce v \<and>
    minRowSize_coerce (minRowSize_coerce v) = minRowSize_coerce v \<and>
    minColumnSize_coerce (minColumnSize_coerce v) = minColumnSize_coerce v \<and>
    maxRowSize_coerce (maxRowSize_coerce l) = maxRowSize_coerce l \<and>
    maxColumnSize_coerce (maxColumnSize_coerce l) = maxColumnSize_coerce l \<and>
    rowSpacing_coerce (of_int (rowSpacing_coerce v)) = rowSpacing_coerce v \<and>
    columnSpacing_coerce (of_int (columnSpacing_coerce v)) = columnSpacing_coerce v \<and>
    row_coerce (of_int (row_coerce v)) = row_coerce v \<and>
    column_coerce (of_int (column_coerce v)) = column_coerce v \<and>
    rowSpan_coerce (of_int (rowSpan_coerce v)) = rowSpan_coerce v \<and>
    columnSpan_coerce (of_int (columnSpan_coerce v)) = columnSpan_coerce v"
    unfolding columnCount_coerce_def rowSpacing_coerce_def columnSpacing_coerce_def
      row_coerce_def column_coerce_def rowSpan_coerce_def columnSpan_coerce_def
      aspectRatio_coerce_def minRowSize_coerce_def minColumnSize_coerce_def
      maxRowSize_coerce_def maxColumnSize_coerce_def
    by (simp only: z o Math_max_limit_idem max.left_idem simp_thms)
  have e1: "aspectRatio (set_aspectRatio (- 3) p) = 0"
    by (simp add: set_aspectRatio_def aspectRatio_coerce_def)
  have "ToInt32 (7 / 10) = 0"
    by (simp add: ToInt32_def truncToZero_def)
  then have e2: "getRowSpan (setRowSpan w (7 / 10)) = 1"
    by (simp add: getRowSpan_def setRowSpan_def rowSpan_coerce_def)
  from trips reals ints idem e1 e2 show ?thesis
    by blast
qed

theorem coercion_round_trip_witness:
  "- 2147483649 < (7 / 10 :: real) \<and> (7 / 10 :: real) < 2147483648 \<and>
   rowSpan_coerce (7 / 10) = 1 \<and> truncToZero (max 1 (7 / 10)) = 1 \<and>
   row_coerce (7 / 10) = 0 \<and>
   getRowSpan (setRowSpan (defaultWidget 0) (7 / 10)) = 1 \<and>
   aspectRatio (set_aspectRatio (- 3) defaultPanel) = 0"
proof -
  note t = coercion_round_trip [of "7 / 10" defaultPanel Infinity "defaultWidget 0"]
  have r: "- 2147483649 < (7 / 10 :: real) \<and> (7 / 10 :: real) < 2147483648"
    by simp
  have v: "truncToZero (max 1 (7 / 10)) = 1" "truncToZero (max 0 (7 / 10)) = 0"
    by (simp_all add: truncToZero_def)
  from t r have "rowSpan_coerce (7 / 10) = truncToZero (max 1 (7 / 10))"
    "row_coerce (7 / 10) = truncToZero (max 0 (7 / 10))"
    by blast+
  moreover from t have "getRowSpan (setRowSpan (defaultWidget 0) (7 / 10)) = 1"
    "aspectRatio (set_aspectRatio (- 3) defaultPanel) = 0"
    by blast+
  ultimately show ?thesis
    using r v by simp
qed

text \<open>
  C8, as stated, fails for the integer fields outside the signed 32-bit range, where
  \<open>value | 0\<close> wraps around before the lower bound is applied: setting \<open>rowSpan\<close> to
  2147483648 reads back 1, and setting \<open>columnCount\<close> to 4294967308 reads back 12, where
  clamping and truncating would keep the written values.
\<close>

theorem coercion_round_trip_counterexample:
  "getRowSpan (setRowSpan (defaultWidget 0) 2147483648) = 1 \<and>
   truncToZero (max 1 2147483648) = 2147483648 \<and>
   columnCount (set_columnCount 4294967308 defaultPanel) = 12 \<and>
   truncToZero (max 1 4294967308) = 4294967308"
proof -
  have "ToInt32 2147483648 = - 2147483648" "ToInt32 4294967308 = 12"
    by (simp_all add: ToInt32_def truncToZero_def)
  then show ?thesis
    by (simp add: getRowSpan_def setRowSpan_def rowSpan_coerce_def set_columnCount_def
        columnCount_coerce_def truncToZero_def)
qed

end
